theory Spec2Isabelle
  imports Main
begin

section \<open>Python strings\<close>

text \<open>
  A Python \<open>str\<close> is modelled as a \<open>string\<close> whose characters stand for the code points
  U+0000 to U+00FF. Among those, \<open>str.isspace\<close> holds for the twelve code points below;
  \<open>str.strip()\<close> and \<open>str.split()\<close> use the same test.
\<close>

definition is_space :: "char \<Rightarrow> bool" where
  "is_space c = ((of_char c :: nat) \<in> {9, 10, 11, 12, 13, 28, 29, 30, 31, 32, 133, 160})"

definition lstrip :: "string \<Rightarrow> string" where
  "lstrip s = dropWhile is_space s"

definition rstrip :: "string \<Rightarrow> string" where
  "rstrip s = rev (dropWhile is_space (rev s))"

text \<open>\<open>s.strip()\<close>\<close>

definition strip :: "string \<Rightarrow> string" where
  "strip s = rstrip (lstrip s)"

text \<open>\<open>s.strip(chars)\<close>: strips the characters of \<open>chars\<close> instead of white space.\<close>

definition strip_chars :: "string \<Rightarrow> string \<Rightarrow> string" where
  "strip_chars chars s =
     rev (dropWhile (\<lambda>c. c \<in> set chars) (rev (dropWhile (\<lambda>c. c \<in> set chars) s)))"

text \<open>\<open>s.endswith(t)\<close>\<close>

definition endswith :: "string \<Rightarrow> string \<Rightarrow> bool" where
  "endswith s t = (length t \<le> length s \<and> drop (length s - length t) s = t)"

text \<open>
  \<open>s.split(c)\<close> for a separator of one character: the pieces between the separators,
  empty pieces included; the result always has at least one piece.
\<close>

fun split_on :: "char \<Rightarrow> string \<Rightarrow> string list" where
  "split_on c [] = [[]]"
| "split_on c (x # xs) =
     (if x = c then [] # split_on c xs
      else (case split_on c xs of p # ps \<Rightarrow> (x # p) # ps | [] \<Rightarrow> [[x]]))"

text \<open>\<open>s.split(c, 1)\<close> when \<open>c\<close> occurs in \<open>s\<close>: the text before and after the first \<open>c\<close>.\<close>

definition split_once :: "char \<Rightarrow> string \<Rightarrow> string \<times> string" where
  "split_once c s = (takeWhile (\<lambda>x. x \<noteq> c) s, drop 1 (dropWhile (\<lambda>x. x \<noteq> c) s))"

text \<open>
  \<open>s.split()\<close>: the maximal runs of characters that are not white space. The first
  argument is the token being read.
\<close>

fun split_ws_from :: "string \<Rightarrow> string \<Rightarrow> string list" where
  "split_ws_from cur [] = (if cur = [] then [] else [cur])"
| "split_ws_from cur (x # xs) =
     (if is_space x then (if cur = [] then split_ws_from [] xs else cur # split_ws_from [] xs)
      else split_ws_from (cur @ [x]) xs)"

definition split_ws :: "string \<Rightarrow> string list" where
  "split_ws s = split_ws_from [] s"

text \<open>\<open>sep.join(xs)\<close>\<close>

fun str_join :: "string \<Rightarrow> string list \<Rightarrow> string" where
  "str_join sep [] = []"
| "str_join sep [x] = x"
| "str_join sep (x # y # ys) = x @ sep @ str_join sep (y # ys)"

section \<open>Parsing a command line\<close>

datatype exc_kind =
    IndexError | KeyError | ValueError | OverflowError
  | FileNotFoundError | NotADirectoryError | PermissionError | ProcessLookupError | OSError
  | EOFError | KeyboardInterrupt | SystemExit int

text \<open>An exception: its class and the text \<open>str(e)\<close> gives.\<close>

type_synonym exc = "exc_kind \<times> string"

text \<open>\<open>xs[i]\<close>: negative indices count from the end, an index out of range raises.\<close>

definition py_index :: "'a list \<Rightarrow> int \<Rightarrow> exc + 'a" where
  "py_index xs i =
     (if 0 \<le> i \<and> i < int (length xs) then Inr (xs ! nat i)
      else if i < 0 \<and> - int (length xs) \<le> i then Inr (xs ! nat (int (length xs) + i))
      else Inl (IndexError, ''list index out of range''))"

text \<open>
  Lines 61 to 66 of \<open>UnixShell.parse_command\<close>: the trimmed line without its trailing
  background marker, and whether it had one.
\<close>

definition strip_background :: "string \<Rightarrow> string \<times> bool" where
  "strip_background line0 =
     (let command_line = strip line0;
          background = endswith command_line ''&''
      in (if background then strip (butlast command_line) else command_line, background))"

text \<open>
  \<open>UnixShell.parse_command\<close>, lines 59 to 78. The result is the list of stages (each a
  list of tokens), the background flag and the redirect target.
\<close>

definition parse_command :: "string \<Rightarrow> exc + (string list list \<times> bool \<times> string option)" where
  "parse_command line0 =
     (case strip_background line0 of
        (command_line, background) \<Rightarrow>
          (if CHR ''>'' \<in> set command_line then
             (let parts = split_on CHR ''>'' command_line
              in case py_index parts 0 of
                   Inl e \<Rightarrow> Inl e
                 | Inr p0 \<Rightarrow>
                    (case py_index parts 1 of
                       Inl e \<Rightarrow> Inl e
                     | Inr p1 \<Rightarrow>
                         Inr (map (\<lambda>cmd. split_ws (strip cmd)) (split_on CHR ''|'' (strip p0)),
                              background, Some (strip p1))))
           else Inr (map (\<lambda>cmd. split_ws (strip cmd)) (split_on CHR ''|'' command_line),
                     background, None)))"

section \<open>Alias expansion\<close>

text \<open>A \<open>dict\<close> is an association list in insertion order, with distinct keys.\<close>

type_synonym ('k, 'v) dict = "('k \<times> 'v) list"

text \<open>\<open>UnixShell.expand_aliases\<close>, lines 80 to 85, with \<open>self.aliases\<close> as an argument.\<close>

definition expand_aliases :: "(string, string) dict \<Rightarrow> string list \<Rightarrow> string list" where
  "expand_aliases als command =
     (case command of
        [] \<Rightarrow> command
      | c # rest \<Rightarrow>
          (case map_of als c of
             Some v \<Rightarrow> split_ws v @ rest
           | None \<Rightarrow> command))"

text \<open>The aliases \<open>UnixShell.__init__\<close> starts with, lines 36 to 40.\<close>

definition initial_aliases :: "(string, string) dict" where
  "initial_aliases = [(''ll'', ''ls -la''), (''la'', ''ls -a''), (''l'', ''ls -CF'')]"

section \<open>Integers and text\<close>

definition digit_char :: "nat \<Rightarrow> char" where
  "digit_char d = ''0123456789'' ! d"

function show_nat :: "nat \<Rightarrow> string" where
  "show_nat n = (if n < 10 then [digit_char n] else show_nat (n div 10) @ [digit_char (n mod 10)])"
  by pat_completeness auto
termination
  by (relation "measure id") auto

declare show_nat.simps [simp del]

text \<open>\<open>str(i)\<close>, as an f-string formats an integer.\<close>

definition show_int :: "int \<Rightarrow> string" where
  "show_int i = (if i < 0 then CHR ''-'' # show_nat (nat (- i)) else show_nat (nat i))"

text \<open>The format \<open>{i:4d}\<close>: right-justified in a field of four characters.\<close>

definition show_int4 :: "int \<Rightarrow> string" where
  "show_int4 i = replicate (4 - length (show_int i)) CHR '' '' @ show_int i"

definition is_digit :: "char \<Rightarrow> bool" where
  "is_digit c = (48 \<le> (of_char c :: nat) \<and> (of_char c :: nat) \<le> 57)"

definition digits_value :: "string \<Rightarrow> nat" where
  "digits_value ds = foldl (\<lambda>a c. 10 * a + (of_char c - 48)) 0 ds"

text \<open>
  \<open>repr(s)\<close> of a string: in single quotes, or in double quotes when the string has a
  single quote and no double quote; the backslash, the quote in use and the characters
  that are not printable are escaped.
\<close>

definition hex_digit :: "nat \<Rightarrow> char" where
  "hex_digit d = ''0123456789abcdef'' ! d"

definition is_printable :: "char \<Rightarrow> bool" where
  "is_printable c =
     (32 \<le> (of_char c :: nat) \<and> ((of_char c :: nat) < 127 \<or> 160 < (of_char c :: nat)) \<and>
      (of_char c :: nat) \<noteq> 173)"

definition repr_char :: "char \<Rightarrow> char \<Rightarrow> string" where
  "repr_char q c =
     (if c = CHR 0x5C then [CHR 0x5C, CHR 0x5C]
      else if c = q then [CHR 0x5C, q]
      else if c = CHR 0x09 then [CHR 0x5C, CHR ''t'']
      else if c = CHR 0x0A then [CHR 0x5C, CHR ''n'']
      else if c = CHR 0x0D then [CHR 0x5C, CHR ''r'']
      else if is_printable c then [c]
      else [CHR 0x5C, CHR ''x'', hex_digit ((of_char c :: nat) div 16),
            hex_digit ((of_char c :: nat) mod 16)])"

definition py_repr :: "string \<Rightarrow> string" where
  "py_repr s =
     (let q = (if CHR 0x27 \<in> set s \<and> CHR 0x22 \<notin> set s then CHR 0x22 else CHR 0x27)
      in q # concat (map (repr_char q) s) @ [q])"

text \<open>
  The white space \<open>int(s)\<close> skips around the literal: the six ASCII ones, and of the
  others U+0085 and U+00A0. U+001C to U+001F are not skipped.
\<close>

definition is_int_space :: "char \<Rightarrow> bool" where
  "is_int_space c = ((of_char c :: nat) \<in> {9, 10, 11, 12, 13, 32, 133, 160})"

text \<open>
  \<open>int(s)\<close>: white space around the literal is skipped, one sign is allowed, and the
  digits may be grouped by single underscores; anything else raises \<open>ValueError\<close>, with
  \<open>repr(s)\<close> in its text. A literal of more than 4300 digits raises \<open>ValueError\<close> as
  well (the limit of the interpreter on the conversion).
\<close>

definition py_int :: "string \<Rightarrow> exc + int" where
  "py_int s =
     (let t = rev (dropWhile is_int_space (rev (dropWhile is_int_space s)));
          neg = (take 1 t = ''-'');
          body = (if take 1 t = ''-'' \<or> take 1 t = ''+'' then drop 1 t else t);
          groups = split_on CHR ''_'' body
      in if list_all (\<lambda>g. g \<noteq> [] \<and> list_all is_digit g) groups
         then (if 4300 < length (concat groups)
               then Inl (ValueError,
                         ''Exceeds the limit (4300 digits) for integer string conversion: ''
                         @ ''value has '' @ show_nat (length (concat groups))
                         @ '' digits; use sys.set_int_max_str_digits() to increase the limit'')
               else Inr ((if neg then - 1 else 1) * int (digits_value (concat groups))))
         else Inl (ValueError, ''invalid literal for int() with base 10: '' @ py_repr s))"

section \<open>The operating system\<close>

text \<open>
  What a child process is to the shell: a \<open>subprocess.Popen\<close> handle, named by its
  process id, whose \<open>poll()\<close> says whether the child still runs.
\<close>

datatype pstatus = Running | Exited int

datatype stream = Inherit | Pipe | Stdout_of int | File string

text \<open>The arguments of one \<open>subprocess.Popen\<close> call (\<open>stderr\<close> is always a pipe).\<close>

record popen_call =
  args :: "string list"
  p_stdin :: stream
  p_stdout :: stream
  p_cwd :: string
  p_env :: "(string, string) dict"

record child =
  ch_status :: pstatus
  ch_stdout :: stream

text \<open>What the shell does to the outside world, in the order it does it.\<close>

datatype event =
    Stdout string
  | Stderr string
  | Prompt
  | Spawned int popen_call
  | Kill int
  | Wait int
  | Communicate int
  | Closed_stdout int
  | Opened string
  | Closed string
  | Chdir string
  | Putenv string string

text \<open>
  The answers of the operating system the shell cannot compute: which calls fail and
  with what exception, what a child writes and how it exits. They are fixed for one
  run of the shell.
\<close>

record os =
  spawn_error :: "popen_call \<Rightarrow> exc option"
  open_error :: "string \<Rightarrow> exc option"
  chdir_error :: "string \<Rightarrow> exc option"
  kill_error :: "int \<Rightarrow> exc option"
  wait_error :: "int \<Rightarrow> exc option"
  putenv_error :: "string \<Rightarrow> string \<Rightarrow> exc option"
  exit_code :: "int \<Rightarrow> int"
  stdout_data :: "int \<Rightarrow> string"
  stderr_data :: "int \<Rightarrow> string"
  decode_error :: "string \<Rightarrow> exc option"
  home :: string
  resolve :: "string \<Rightarrow> string \<Rightarrow> string"
  clock :: nat

section \<open>The shell's state\<close>

text \<open>
  \<open>class Job\<close>, lines 11 to 18. \<open>process\<close> is the one \<open>Popen\<close> handle the job holds.
\<close>

record job =
  job_id :: int
  command :: string
  process :: int
  status :: string
  start_time :: nat

text \<open>
  The attributes of \<open>UnixShell\<close> (\<open>jobs\<close> to \<open>current_dir\<close>), followed by the part of
  the world the shell changes: its children, the next process id, the working
  directory and environment of the shell process, and the events so far.
\<close>

record state =
  jobs :: "(int, job) dict"
  job_counter :: int
  history :: "string list"
  aliases :: "(string, string) dict"
  environment :: "(string, string) dict"
  current_dir :: string
  procs :: "int \<rightharpoonup> child"
  next_pid :: int
  cwd :: string
  environ :: "(string, string) dict"
  trace :: "event list"

text \<open>\<open>UnixShell.__init__\<close>, lines 32 to 42, in a process with the given environment,
  working directory and first free process id.\<close>

definition new_shell :: "(string, string) dict \<Rightarrow> string \<Rightarrow> int \<Rightarrow> state" where
  "new_shell env0 dir0 pid0 =
     \<lparr>jobs = [], job_counter = 1, history = [], aliases = initial_aliases,
      environment = env0, current_dir = dir0,
      procs = Map.empty, next_pid = pid0, cwd = dir0, environ = env0, trace = []\<rparr>"

text \<open>\<open>d[k] = v\<close>: replaces the value of a present key in place, else appends.\<close>

fun dict_set :: "'k \<Rightarrow> 'v \<Rightarrow> ('k, 'v) dict \<Rightarrow> ('k, 'v) dict" where
  "dict_set k v [] = [(k, v)]"
| "dict_set k v (kv # d) = (if fst kv = k then (k, v) # d else kv # dict_set k v d)"

definition emit :: "event \<Rightarrow> state \<Rightarrow> state" where
  "emit e s = s\<lparr>trace := trace s @ [e]\<rparr>"

text \<open>\<open>print(text)\<close>\<close>

definition print_out :: "string \<Rightarrow> state \<Rightarrow> state" where
  "print_out text s = emit (Stdout (text @ [CHR 0x0A])) s"

text \<open>\<open>process.poll()\<close>: the return code of a child that has exited, else \<open>None\<close>. The
  state records a child as exited when the shell has waited for it or when its exit
  arrived at the prompt; that a child exits by itself while a command runs is not
  modelled.\<close>

definition poll :: "state \<Rightarrow> int \<Rightarrow> int option" where
  "poll s pid =
     (case procs s pid of
        None \<Rightarrow> None
      | Some ch \<Rightarrow> (case ch_status ch of Running \<Rightarrow> None | Exited c \<Rightarrow> Some c))"

definition set_exited :: "int \<Rightarrow> int \<Rightarrow> state \<Rightarrow> state" where
  "set_exited pid c s =
     (case procs s pid of
        None \<Rightarrow> s
      | Some ch \<Rightarrow>
          (case ch_status ch of
             Running \<Rightarrow> s\<lparr>procs := (procs s)(pid \<mapsto> ch\<lparr>ch_status := Exited c\<rparr>)\<rparr>
           | Exited c' \<Rightarrow> s))"

text \<open>
  \<open>subprocess.Popen(argv, ...)\<close>: the library reads \<open>argv[0]\<close> for the executable, so an
  empty argument list raises \<open>IndexError\<close>; otherwise the operating system decides. A
  child that starts is running and gets the next process id.
\<close>

definition Popen :: "os \<Rightarrow> popen_call \<Rightarrow> state \<Rightarrow> (exc + int) \<times> state" where
  "Popen w call s =
     (case args call of
        [] \<Rightarrow> (Inl (IndexError, ''list index out of range''), s)
      | prog # rest \<Rightarrow>
          (case spawn_error w call of
             Some e \<Rightarrow> (Inl e, s)
           | None \<Rightarrow>
               (Inr (next_pid s),
                emit (Spawned (next_pid s) call)
                  (s\<lparr>procs := (procs s)(next_pid s \<mapsto>
                                 \<lparr>ch_status = Running, ch_stdout = p_stdout call\<rparr>),
                     next_pid := next_pid s + 1\<rparr>))))"

text \<open>\<open>process.wait()\<close>: returns at once for a child that has exited, else blocks until
  it exits, unless the wait is interrupted.\<close>

definition wait_proc :: "os \<Rightarrow> int \<Rightarrow> state \<Rightarrow> exc option \<times> state" where
  "wait_proc w pid s =
     (case poll s pid of
        Some c \<Rightarrow> (None, emit (Wait pid) s)
      | None \<Rightarrow>
          (case wait_error w pid of
             Some e \<Rightarrow> (Some e, emit (Wait pid) s)
           | None \<Rightarrow> (None, set_exited pid (exit_code w pid) (emit (Wait pid) s))))"

text \<open>\<open>process.communicate()\<close>: waits for the child and returns what it wrote to the
  pipes the shell holds; \<open>stdout_data\<close> is \<open>None\<close> when its output is not a pipe.\<close>

definition communicate ::
  "os \<Rightarrow> int \<Rightarrow> state \<Rightarrow> (exc + (string option \<times> string option)) \<times> state" where
  "communicate w pid s =
     (case (if poll s pid = None then wait_error w pid else None) of
        Some e \<Rightarrow> (Inl e, emit (Communicate pid) s)
      | None \<Rightarrow>
          (Inr (case procs s pid of
                  None \<Rightarrow> None
                | Some ch \<Rightarrow> (if ch_stdout ch = Pipe then Some (stdout_data w pid) else None),
                Some (stderr_data w pid)),
           set_exited pid (exit_code w pid) (emit (Communicate pid) s)))"

text \<open>\<open>os.kill(pid, signal.SIGTERM)\<close>\<close>

definition os_kill :: "os \<Rightarrow> int \<Rightarrow> state \<Rightarrow> exc option \<times> state" where
  "os_kill w pid s = (kill_error w pid, emit (Kill pid) s)"

text \<open>\<open>process.terminate()\<close>: nothing for a child that has exited; else the signal is
  sent, and the library swallows \<open>ProcessLookupError\<close>.\<close>

definition terminate :: "os \<Rightarrow> int \<Rightarrow> state \<Rightarrow> exc option \<times> state" where
  "terminate w pid s =
     (case poll s pid of
        Some c \<Rightarrow> (None, s)
      | None \<Rightarrow>
          (case os_kill w pid s of
             (Some e, s') \<Rightarrow> (if fst e = ProcessLookupError then (None, s') else (Some e, s'))
           | (None, s') \<Rightarrow> (None, s')))"

text \<open>\<open>open(path, "w")\<close>\<close>

definition open_w :: "os \<Rightarrow> string \<Rightarrow> state \<Rightarrow> (exc + stream) \<times> state" where
  "open_w w path s =
     (case open_error w path of
        Some e \<Rightarrow> (Inl e, s)
      | None \<Rightarrow> (Inr (File path), emit (Opened path) s))"

text \<open>\<open>os.chdir(path)\<close>\<close>

definition chdir :: "os \<Rightarrow> string \<Rightarrow> state \<Rightarrow> exc option \<times> state" where
  "chdir w path s =
     (case chdir_error w path of
        Some e \<Rightarrow> (Some e, s)
      | None \<Rightarrow> (None, emit (Chdir path) (s\<lparr>cwd := resolve w (cwd s) path\<rparr>)))"

text \<open>\<open>os.environ[name] = value\<close>\<close>

definition putenv :: "os \<Rightarrow> string \<Rightarrow> string \<Rightarrow> state \<Rightarrow> exc option \<times> state" where
  "putenv w name val s =
     (case putenv_error w name val of
        Some e \<Rightarrow> (Some e, s)
      | None \<Rightarrow> (None, emit (Putenv name val) (s\<lparr>environ := dict_set name val (environ s)\<rparr>)))"

section \<open>Jobs\<close>

text \<open>\<open>Job.is_running\<close>, lines 20 to 21.\<close>

definition is_running :: "state \<Rightarrow> job \<Rightarrow> bool" where
  "is_running s j = (poll s (process j) = None)"

text \<open>\<open>Job.get_status\<close>, lines 23 to 27.\<close>

definition get_status :: "state \<Rightarrow> job \<Rightarrow> string" where
  "get_status s j =
     (case poll s (process j) of
        None \<Rightarrow> ''running''
      | Some returncode \<Rightarrow> ''done ('' @ show_int returncode @ '')'')"

text \<open>
  The four statements that register a background job, lines 168 to 171 and again
  lines 222 to 225: the job takes the counter as its id, is stored under it, the id
  and the process id are printed, and the counter goes up by one.
\<close>

definition register :: "os \<Rightarrow> string \<Rightarrow> int \<Rightarrow> state \<Rightarrow> state" where
  "register w label pid s =
     (let j = \<lparr>job_id = job_counter s, command = label, process = pid,
               status = ''running'', start_time = clock w\<rparr>;
          s1 = s\<lparr>jobs := dict_set (job_counter s) j (jobs s)\<rparr>;
          s2 = print_out (''['' @ show_int (job_counter s1) @ ''] '' @ show_int pid) s1
      in s2\<lparr>job_counter := job_counter s2 + 1\<rparr>)"

text \<open>\<open>del self.jobs[jid]\<close>: raises \<open>KeyError\<close> for a key that is not in the table.\<close>

definition del_job :: "int \<Rightarrow> state \<Rightarrow> exc option \<times> state" where
  "del_job jid s =
     (if jid \<in> fst ` set (jobs s)
      then (None, s\<lparr>jobs := filter (\<lambda>kv. fst kv \<noteq> jid) (jobs s)\<rparr>)
      else (Some (KeyError, show_int jid), s))"

text \<open>\<open>for jid in completed: del self.jobs[jid]\<close>\<close>

fun del_jobs :: "int list \<Rightarrow> state \<Rightarrow> exc option \<times> state" where
  "del_jobs [] s = (None, s)"
| "del_jobs (jid # rest) s =
     (case del_job jid s of
        (Some e, s') \<Rightarrow> (Some e, s')
      | (None, s') \<Rightarrow> del_jobs rest s')"

text \<open>The loop of lines 247 to 249 over the entries of the table.\<close>

fun print_jobs :: "(int \<times> job) list \<Rightarrow> state \<Rightarrow> state" where
  "print_jobs [] s = s"
| "print_jobs ((jid, j) # rest) s =
     print_jobs rest
       (print_out (''['' @ show_int jid @ '']  '' @ get_status s j @ ''    '' @ command j) s)"

text \<open>\<open>UnixShell.show_jobs\<close>, lines 242 to 254.\<close>

definition show_jobs :: "state \<Rightarrow> exc option \<times> state" where
  "show_jobs s =
     (if jobs s = [] then (None, s)
      else
        (let s1 = print_jobs (jobs s) s;
             completed = map fst (filter (\<lambda>kv. \<not> is_running s1 (snd kv)) (jobs s1))
         in del_jobs completed s1))"

text \<open>\<open>UnixShell.foreground_job\<close>, lines 256 to 281. \<open>resolve_fg\<close> is the first half, up
  to line 269: the job id asked for, or the state after the message that none is.\<close>

definition resolve_fg :: "string list \<Rightarrow> state \<Rightarrow> state + int" where
  "resolve_fg argv s =
     (case argv of
        [] \<Rightarrow>
          (case jobs s of
             [] \<Rightarrow> Inl (print_out ''fg: no current job'' s)
           | kv # rest \<Rightarrow> Inr (foldl max (fst kv) (map fst rest)))
      | a # as \<Rightarrow>
          (case py_int a of
             Inl e \<Rightarrow> Inl (print_out ''fg: invalid job number'' s)
           | Inr n \<Rightarrow> Inr n))"

definition foreground_job :: "os \<Rightarrow> string list \<Rightarrow> state \<Rightarrow> exc option \<times> state" where
  "foreground_job w argv s =
     (case resolve_fg argv s of
        Inl s' \<Rightarrow> (None, s')
      | Inr jid \<Rightarrow>
          (case map_of (jobs s) jid of
             None \<Rightarrow> (None, print_out (''fg: job '' @ show_int jid @ '' not found'') s)
           | Some j \<Rightarrow>
               (if is_running s j then
                  (case wait_proc w (process j) s of
                     (Some e, s1) \<Rightarrow>
                       (if fst e = KeyboardInterrupt then (None, print_out ''^C'' s1)
                        else (Some e, s1))
                   | (None, s1) \<Rightarrow>
                       (case del_job jid s1 of
                          (Some e, s2) \<Rightarrow>
                            (if fst e = KeyboardInterrupt then (None, print_out ''^C'' s2)
                             else (Some e, s2))
                        | (None, s2) \<Rightarrow> (None, s2)))
                else (None, s))))"

text \<open>\<open>UnixShell.background_job\<close>, lines 283 to 285.\<close>

definition background_job :: "string list \<Rightarrow> state \<Rightarrow> state" where
  "background_job argv s = print_out ''bg: job control not fully implemented'' s"

text \<open>The clause \<open>except (ValueError, ProcessLookupError, PermissionError)\<close> of line 304.\<close>

definition kill_caught :: "exc \<Rightarrow> bool" where
  "kill_caught e = (fst e \<in> {ValueError, ProcessLookupError, PermissionError})"

definition kill_except :: "exc \<Rightarrow> state \<Rightarrow> exc option \<times> state" where
  "kill_except e s =
     (if kill_caught e then (None, print_out (''kill: '' @ snd e) s) else (Some e, s))"

text \<open>\<open>UnixShell.kill_job\<close>, lines 287 to 305.\<close>

definition kill_job :: "os \<Rightarrow> string list \<Rightarrow> state \<Rightarrow> exc option \<times> state" where
  "kill_job w argv s =
     (case argv of
        [] \<Rightarrow> (None, print_out ''kill: usage: kill job_id'' s)
      | a # as \<Rightarrow>
          (case py_int a of
             Inl e \<Rightarrow> kill_except e s
           | Inr jid \<Rightarrow>
               (case map_of (jobs s) jid of
                  Some j \<Rightarrow>
                    (case terminate w (process j) s of
                       (Some e, s1) \<Rightarrow> kill_except e s1
                     | (None, s1) \<Rightarrow>
                         (let s2 = print_out (''['' @ show_int jid @ ''] Terminated: '' @ command j) s1
                          in case del_job jid s2 of
                               (Some e, s3) \<Rightarrow> kill_except e s3
                             | (None, s3) \<Rightarrow> (None, s3)))
                | None \<Rightarrow>
                    (case os_kill w jid s of
                       (Some e, s1) \<Rightarrow> kill_except e s1
                     | (None, s1) \<Rightarrow>
                         (None, print_out (''Process '' @ show_int jid @ '' terminated'') s1)))))"

section \<open>History, aliases and the environment\<close>

text \<open>\<open>self.history.append(line)\<close> on a \<open>deque(maxlen=1000)\<close>.\<close>

definition history_append :: "string \<Rightarrow> string list \<Rightarrow> string list" where
  "history_append x h = (if 1000 \<le> length h then drop 1 h @ [x] else h @ [x])"

fun print_history :: "int \<Rightarrow> string list \<Rightarrow> state \<Rightarrow> state" where
  "print_history i [] s = s"
| "print_history i (cmd # rest) s =
     print_history (i + 1) rest (print_out (show_int4 i @ ''  '' @ cmd) s)"

text \<open>\<open>UnixShell.show_history\<close>, lines 307 to 310.\<close>

definition show_history :: "state \<Rightarrow> state" where
  "show_history s = print_history 1 (history s) s"

fun print_aliases :: "(string \<times> string) list \<Rightarrow> state \<Rightarrow> state" where
  "print_aliases [] s = s"
| "print_aliases ((name, cmd) # rest) s =
     print_aliases rest (print_out (''alias '' @ name @ ''='' @ [CHR 0x27] @ cmd @ [CHR 0x27]) s)"

text \<open>\<open>UnixShell.handle_alias\<close>, lines 312 to 324.\<close>

definition handle_alias :: "string list \<Rightarrow> state \<Rightarrow> state" where
  "handle_alias argv s =
     (case argv of
        [] \<Rightarrow> print_aliases (aliases s) s
      | a # as \<Rightarrow>
          (if CHR ''='' \<in> set a then
             (let (name, cmd) = split_once CHR ''='' a
              in s\<lparr>aliases := dict_set name (strip_chars [CHR 0x27, CHR 0x22] cmd) (aliases s)\<rparr>)
           else
             (case map_of (aliases s) a of
                Some v \<Rightarrow> print_out (''alias '' @ a @ ''='' @ [CHR 0x27] @ v @ [CHR 0x27]) s
              | None \<Rightarrow> s)))"

text \<open>\<open>UnixShell.handle_export\<close>, lines 326 to 335.\<close>

fun handle_export :: "os \<Rightarrow> string list \<Rightarrow> state \<Rightarrow> exc option \<times> state" where
  "handle_export w [] s = (None, s)"
| "handle_export w (arg # rest) s =
     (if CHR ''='' \<in> set arg then
        (let (name, val) = split_once CHR ''='' arg;
             s1 = s\<lparr>environment := dict_set name val (environment s)\<rparr>
         in case putenv w name val s1 of
              (Some e, s2) \<Rightarrow> (Some e, s2)
            | (None, s2) \<Rightarrow> handle_export w rest s2)
      else
        (case map_of (environment s) arg of
           Some v \<Rightarrow> handle_export w rest (print_out (arg @ ''='' @ v) s)
         | None \<Rightarrow> handle_export w rest s))"

section \<open>Built-in commands\<close>

text \<open>The branch \<open>cd\<close> of \<open>execute_builtin\<close>, lines 95 to 103. The clause
  \<open>except (IndexError, FileNotFoundError)\<close> catches those two classes and no other.\<close>

definition builtin_cd :: "os \<Rightarrow> string list \<Rightarrow> state \<Rightarrow> exc option \<times> state" where
  "builtin_cd w argv s =
     (let path = (case argv of [] \<Rightarrow> home w | a # as \<Rightarrow> a)
      in case chdir w path s of
           (Some e, s1) \<Rightarrow>
             (if fst e \<in> {IndexError, FileNotFoundError}
              then (None, print_out (''cd: '' @ (case argv of [] \<Rightarrow> ''~'' | a # as \<Rightarrow> a)
                                      @ '': No such file or directory'') s1)
              else (Some e, s1))
         | (None, s1) \<Rightarrow>
             (let s2 = s1\<lparr>current_dir := cwd s1\<rparr>
              in (None, s2\<lparr>environment := dict_set ''PWD'' (current_dir s2) (environment s2)\<rparr>)))"

text \<open>\<open>UnixShell.execute_builtin\<close>, lines 87 to 141: whether the command was a built-in,
  or the exception that left it.\<close>

definition execute_builtin :: "os \<Rightarrow> string list \<Rightarrow> state \<Rightarrow> (exc + bool) \<times> state" where
  "execute_builtin w cmdv s =
     (case cmdv of
        [] \<Rightarrow> (Inr True, s)
      | cmd # argv \<Rightarrow>
          (if cmd = ''cd'' then
             (case builtin_cd w argv s of
                (Some e, s') \<Rightarrow> (Inl e, s') | (None, s') \<Rightarrow> (Inr True, s'))
           else if cmd = ''pwd'' then (Inr True, print_out (cwd s) s)
           else if cmd = ''jobs'' then
             (case show_jobs s of
                (Some e, s') \<Rightarrow> (Inl e, s') | (None, s') \<Rightarrow> (Inr True, s'))
           else if cmd = ''fg'' then
             (case foreground_job w argv s of
                (Some e, s') \<Rightarrow> (Inl e, s') | (None, s') \<Rightarrow> (Inr True, s'))
           else if cmd = ''bg'' then (Inr True, background_job argv s)
           else if cmd = ''kill'' then
             (case kill_job w argv s of
                (Some e, s') \<Rightarrow> (Inl e, s') | (None, s') \<Rightarrow> (Inr True, s'))
           else if cmd = ''history'' then (Inr True, show_history s)
           else if cmd = ''alias'' then (Inr True, handle_alias argv s)
           else if cmd = ''export'' then
             (case handle_export w argv s of
                (Some e, s') \<Rightarrow> (Inl e, s') | (None, s') \<Rightarrow> (Inr True, s'))
           else if cmd = ''exit'' then (Inl (SystemExit 0, ''0''), print_out ''Goodbye!'' s)
           else (Inr False, s)))"

section \<open>Running commands\<close>

text \<open>The truth value of \<open>redirect_file\<close>: \<open>None\<close> and the empty string are false.\<close>

definition truthy :: "string option \<Rightarrow> bool" where
  "truthy rf = (case rf of None \<Rightarrow> False | Some path \<Rightarrow> path \<noteq> [])"

text \<open>\<open>if redirect_file: stdout = open(redirect_file, "w")\<close>, with \<open>stdout = None\<close> before.\<close>

definition open_redirect :: "os \<Rightarrow> string option \<Rightarrow> state \<Rightarrow> (exc + stream option) \<times> state" where
  "open_redirect w rf s =
     (case rf of
        None \<Rightarrow> (Inr None, s)
      | Some path \<Rightarrow>
          (if path = [] then (Inr None, s)
           else (case open_w w path s of
                   (Inl e, s1) \<Rightarrow> (Inl e, s1)
                 | (Inr f, s1) \<Rightarrow> (Inr (Some f), s1))))"

text \<open>The clause \<open>except Exception\<close> catches every exception but \<open>KeyboardInterrupt\<close> and
  \<open>SystemExit\<close>.\<close>

definition is_Exception :: "exc \<Rightarrow> bool" where
  "is_Exception e =
     (case fst e of KeyboardInterrupt \<Rightarrow> False | SystemExit c \<Rightarrow> False | _ \<Rightarrow> True)"

text \<open>\<open>print(data.decode(), end="", file=...)\<close>: \<open>decode\<close> raises for bytes that are not
  valid text, and then nothing is written.\<close>

definition print_decoded ::
  "os \<Rightarrow> (string \<Rightarrow> event) \<Rightarrow> string \<Rightarrow> state \<Rightarrow> exc option \<times> state" where
  "print_decoded w to_stream data s =
     (case decode_error w data of
        Some e \<Rightarrow> (Some e, s)
      | None \<Rightarrow> (None, emit (to_stream data) s))"

text \<open>The two statements that print what a child wrote, lines 175 to 178 and lines 234
  to 237: its output when there is any and it is to be shown, then its error output
  when there is any.\<close>

definition print_captured ::
  "os \<Rightarrow> bool \<Rightarrow> string option \<times> string option \<Rightarrow> state \<Rightarrow> exc option \<times> state" where
  "print_captured w show_stdout data s =
     (case (case fst data of
              None \<Rightarrow> (None, s)
            | Some out \<Rightarrow>
                (if out \<noteq> [] \<and> show_stdout then print_decoded w Stdout out s else (None, s))) of
        (Some e, s1) \<Rightarrow> (Some e, s1)
      | (None, s1) \<Rightarrow>
          (case snd data of
             None \<Rightarrow> (None, s1)
           | Some err \<Rightarrow> (if err \<noteq> [] then print_decoded w Stderr err s1 else (None, s1))))"

text \<open>The body of the \<open>try\<close> of \<open>execute_pipeline\<close>, lines 153 to 181.\<close>

definition run_single :: "os \<Rightarrow> string list \<Rightarrow> bool \<Rightarrow> string option \<Rightarrow> state \<Rightarrow> exc option \<times> state" where
  "run_single w cmdv background rf s =
     (case open_redirect w rf s of
        (Inl e, s1) \<Rightarrow> (Some e, s1)
      | (Inr stdout, s1) \<Rightarrow>
          (case Popen w \<lparr>args = cmdv, p_stdin = Inherit,
                         p_stdout = (case stdout of None \<Rightarrow> Pipe | Some f \<Rightarrow> f),
                         p_cwd = current_dir s1, p_env = environment s1\<rparr> s1 of
             (Inl e, s2) \<Rightarrow> (Some e, s2)
           | (Inr pid, s2) \<Rightarrow>
               (case (if background then (None, register w (str_join '' '' cmdv) pid s2)
                      else (case communicate w pid s2 of
                              (Inl e, s3) \<Rightarrow> (Some e, s3)
                            | (Inr data, s3) \<Rightarrow> print_captured w (\<not> truthy rf) data s3)) of
                  (Some e, s4) \<Rightarrow> (Some e, s4)
                | (None, s4) \<Rightarrow>
                    (case stdout of
                       Some (File path) \<Rightarrow> (None, emit (Closed path) s4)
                     | _ \<Rightarrow> (None, s4)))))"

text \<open>The two \<open>except\<close> clauses of \<open>execute_pipeline\<close>, lines 183 to 186.\<close>

definition single_except :: "string list \<Rightarrow> exc \<Rightarrow> state \<Rightarrow> exc option \<times> state" where
  "single_except cmdv e s =
     (if fst e = FileNotFoundError then
        (case py_index cmdv 0 of
           Inl e' \<Rightarrow> (Some e', s)
         | Inr c \<Rightarrow> (None, print_out (c @ '': command not found'') s))
      else if is_Exception e then (None, print_out (''Error executing command: '' @ snd e) s)
      else (Some e, s))"

text \<open>The body of the loop of \<open>execute_pipeline_chain\<close>, lines 197 to 218, for stage \<open>i\<close>
  of \<open>n\<close>: \<open>processes\<close> holds the handles so far, and the result is that list with the
  new handle appended.\<close>

definition spawn_stage ::
  "os \<Rightarrow> int \<Rightarrow> string option \<Rightarrow> int \<Rightarrow> string list \<Rightarrow> int list \<Rightarrow> state
   \<Rightarrow> (exc + int list) \<times> state" where
  "spawn_stage w n rf i cmdv0 processes s =
     (let cmdv = expand_aliases (aliases s) cmdv0
      in case (if 0 < i then (case py_index processes (i - 1) of
                                Inl e \<Rightarrow> Inl e
                              | Inr prev \<Rightarrow> Inr (Stdout_of prev))
               else Inr Inherit) of
           Inl e \<Rightarrow> (Inl e, s)
         | Inr stdin \<Rightarrow>
             (case (if i = n - 1 then open_redirect w rf s else (Inr None, s)) of
                (Inl e, s1) \<Rightarrow> (Inl e, s1)
              | (Inr file, s1) \<Rightarrow>
                  (case Popen w \<lparr>args = cmdv, p_stdin = stdin,
                                 p_stdout = (case file of
                                               Some f \<Rightarrow> f
                                             | None \<Rightarrow> (if i < n - 1 then Pipe else Inherit)),
                                 p_cwd = current_dir s1, p_env = environment s1\<rparr> s1 of
                     (Inl e, s2) \<Rightarrow> (Inl e, s2)
                   | (Inr pid, s2) \<Rightarrow>
                       (if 0 < i then
                          (case py_index (processes @ [pid]) (i - 1) of
                             Inl e \<Rightarrow> (Inl e, s2)
                           | Inr prev \<Rightarrow> (Inr (processes @ [pid]), emit (Closed_stdout prev) s2))
                        else (Inr (processes @ [pid]), s2)))))"

text \<open>The loop itself, lines 196 to 218, from stage \<open>i\<close> on.\<close>

fun spawn_stages ::
  "os \<Rightarrow> int \<Rightarrow> string option \<Rightarrow> int \<Rightarrow> string list list \<Rightarrow> int list \<Rightarrow> state
   \<Rightarrow> (exc + int list) \<times> state" where
  "spawn_stages w n rf i [] processes s = (Inr processes, s)"
| "spawn_stages w n rf i (cmdv # rest) processes s =
     (case spawn_stage w n rf i cmdv processes s of
        (Inl e, s1) \<Rightarrow> (Inl e, s1)
      | (Inr processes1, s1) \<Rightarrow> spawn_stages w n rf (i + 1) rest processes1 s1)"

text \<open>\<open>for process in processes: process.wait()\<close>, lines 228 to 229.\<close>

fun wait_all :: "os \<Rightarrow> int list \<Rightarrow> state \<Rightarrow> exc option \<times> state" where
  "wait_all w [] s = (None, s)"
| "wait_all w (pid # rest) s =
     (case wait_proc w pid s of
        (Some e, s1) \<Rightarrow> (Some e, s1)
      | (None, s1) \<Rightarrow> wait_all w rest s1)"

text \<open>The clause \<open>except Exception as e\<close> of \<open>execute_pipeline_chain\<close>, lines 239 to 240.\<close>

definition chain_except :: "exc \<Rightarrow> state \<Rightarrow> exc option \<times> state" where
  "chain_except e s =
     (if is_Exception e then (None, print_out (''Pipeline error: '' @ snd e) s) else (Some e, s))"

text \<open>\<open>UnixShell.execute_pipeline_chain\<close>, lines 191 to 240.\<close>

definition execute_pipeline_chain ::
  "os \<Rightarrow> string list list \<Rightarrow> bool \<Rightarrow> string option \<Rightarrow> state \<Rightarrow> exc option \<times> state" where
  "execute_pipeline_chain w commands background rf s =
     (case spawn_stages w (int (length commands)) rf 0 commands [] s of
        (Inl e, s1) \<Rightarrow> chain_except e s1
      | (Inr processes, s1) \<Rightarrow>
          (if background then
             (case py_index processes (- 1) of
                Inl e \<Rightarrow> chain_except e s1
              | Inr pid \<Rightarrow>
                  (None, register w (str_join '' | '' (map (str_join '' '') commands)) pid s1))
           else
             (case wait_all w processes s1 of
                (Some e, s2) \<Rightarrow> chain_except e s2
              | (None, s2) \<Rightarrow>
                  (if \<not> truthy rf then
                     (case py_index processes (- 1) of
                        Inl e \<Rightarrow> chain_except e s2
                      | Inr pid \<Rightarrow>
                          (case communicate w pid s2 of
                             (Inl e, s3) \<Rightarrow> chain_except e s3
                           | (Inr data, s3) \<Rightarrow>
                               (case print_captured w True data s3 of
                                  (Some e, s4) \<Rightarrow> chain_except e s4
                                | (None, s4) \<Rightarrow> (None, s4))))
                   else (None, s2)))))"

text \<open>\<open>UnixShell.execute_pipeline\<close>, lines 143 to 189.\<close>

definition execute_pipeline ::
  "os \<Rightarrow> string list list \<Rightarrow> bool \<Rightarrow> string option \<Rightarrow> state \<Rightarrow> exc option \<times> state" where
  "execute_pipeline w commands background rf s =
     (if length commands = 1 then
        (case py_index commands 0 of
           Inl e \<Rightarrow> (Some e, s)
         | Inr cmdv0 \<Rightarrow>
             (let cmdv = expand_aliases (aliases s) cmdv0
              in case execute_builtin w cmdv s of
                   (Inl e, s1) \<Rightarrow> (Some e, s1)
                 | (Inr True, s1) \<Rightarrow> (None, s1)
                 | (Inr False, s1) \<Rightarrow>
                     (case run_single w cmdv background rf s1 of
                        (Some e, s2) \<Rightarrow> single_except cmdv e s2
                      | (None, s2) \<Rightarrow> (None, s2))))
      else execute_pipeline_chain w commands background rf s)"

section \<open>The main loop\<close>

text \<open>
  What arrives while the shell waits at its prompt: a line, an interrupt from the
  keyboard, or the exit of a child with its return code. The end of the list is the end
  of the input.
\<close>

datatype stdin_item = Line string | Ctrl_c | Child_exit int int

text \<open>How \<open>run\<close> ends: it returns after the end of the input, or an exception leaves it
  (\<open>SystemExit\<close> from \<open>exit\<close>, or any exception no clause catches).\<close>

datatype outcome = Returned | Uncaught exc

text \<open>The first loop of the reaping pass, lines 344 to 348.\<close>

fun reap_scan :: "(int \<times> job) list \<Rightarrow> state \<Rightarrow> int list \<times> state" where
  "reap_scan [] s = ([], s)"
| "reap_scan ((jid, j) # rest) s =
     (if \<not> is_running s j then
        (case reap_scan rest (print_out (''['' @ show_int jid @ ''] Done: '' @ command j) s) of
           (completed, s') \<Rightarrow> (jid # completed, s'))
      else reap_scan rest s)"

text \<open>The reaping pass, lines 343 to 351.\<close>

definition reap :: "state \<Rightarrow> exc option \<times> state" where
  "reap s = (case reap_scan (jobs s) s of (completed, s1) \<Rightarrow> del_jobs completed s1)"

text \<open>One line through lines 356 to 364: \<open>None\<close> when the body ends or continues
  normally.\<close>

definition run_line :: "os \<Rightarrow> string \<Rightarrow> state \<Rightarrow> exc option \<times> state" where
  "run_line w command_line s =
     (if strip command_line = [] then (None, s)
      else
        (let s1 = s\<lparr>history := history_append command_line (history s)\<rparr>
         in case parse_command command_line of
              Inl e \<Rightarrow> (Some e, s1)
            | Inr (commands, background, rf) \<Rightarrow> execute_pipeline w commands background rf s1))"

text \<open>
  \<open>UnixShell.run\<close>, lines 341 to 371. \<open>run_loop\<close> is one turn of the \<open>while\<close> from its
  top, \<open>await_input\<close> the call of \<open>input\<close> and what follows it. An exception of the
  reaping pass can only be the \<open>KeyError\<close> of \<open>del\<close>, which no clause catches. An
  interrupt at the prompt runs \<open>signal_handler\<close>, lines 47 to 50, which \<open>__init__\<close> installs
  for it: it prints a line and returns, and \<open>input\<close> goes on waiting.
\<close>

fun run_loop :: "os \<Rightarrow> stdin_item list \<Rightarrow> state \<Rightarrow> outcome \<times> state"
  and await_input :: "os \<Rightarrow> stdin_item list \<Rightarrow> state \<Rightarrow> outcome \<times> state" where
  "run_loop w inp s =
     (case reap s of
        (Some e, s1) \<Rightarrow> (Uncaught e, s1)
      | (None, s1) \<Rightarrow> await_input w inp (emit Prompt s1))"
| "await_input w [] s = (Returned, print_out (CHR 0x0A # ''Goodbye!'') s)"
| "await_input w (Child_exit pid c # rest) s = await_input w rest (set_exited pid c s)"
| "await_input w (Ctrl_c # rest) s = await_input w rest (print_out (CHR 0x0A # ''^C'') s)"
| "await_input w (Line l # rest) s =
     (case run_line w l s of
        (None, s1) \<Rightarrow> run_loop w rest s1
      | (Some e, s1) \<Rightarrow>
          (if fst e = EOFError then (Returned, print_out (CHR 0x0A # ''Goodbye!'') s1)
           else if fst e = KeyboardInterrupt then run_loop w rest (print_out [] s1)
           else (Uncaught e, s1)))"

text \<open>\<open>UnixShell.run\<close> from its first line.\<close>

definition run :: "os \<Rightarrow> stdin_item list \<Rightarrow> state \<Rightarrow> outcome \<times> state" where
  "run w inp s =
     run_loop w inp (print_out ''Unix Shell with Job Scheduling - Type 'exit' to quit'' s)"

section \<open>Notions the properties are stated with\<close>

text \<open>
  The split the specification describes for a line with a redirection: the text before
  the first \<open>>\<close>, and all the text after it, trimmed.
\<close>

definition claimed_split :: "string \<Rightarrow> string \<times> string" where
  "claimed_split l =
     (takeWhile (\<lambda>c. c \<noteq> CHR ''>'') l, strip (drop 1 (dropWhile (\<lambda>c. c \<noteq> CHR ''>'') l)))"

text \<open>The process handles a job record holds: its one field \<open>process\<close>.\<close>

definition job_processes :: "job \<Rightarrow> int list" where
  "job_processes j = [process j]"

text \<open>The events by which the shell signals a child or waits for it.\<close>

fun signals_or_waits :: "event \<Rightarrow> bool" where
  "signals_or_waits (Kill pid) = True"
| "signals_or_waits (Wait pid) = True"
| "signals_or_waits (Communicate pid) = True"
| "signals_or_waits ev = False"

text \<open>
  What the spawning loop may do to a state: the job table, the counter and the aliases
  stay, the events it adds neither signal a child nor wait for one, and process ids are
  only handed out.
\<close>

definition only_spawns :: "state \<Rightarrow> state \<Rightarrow> bool" where
  "only_spawns s s1 =
     (jobs s1 = jobs s \<and> job_counter s1 = job_counter s \<and> aliases s1 = aliases s \<and>
      (\<exists>evs. trace s1 = trace s @ evs \<and> list_all (\<lambda>ev. \<not> signals_or_waits ev) evs) \<and>
      next_pid s \<le> next_pid s1)"

text \<open>
  What a step adds to the job table: for every entry of the table after the step whose
  key was not a key of the table before it, the key and the \<open>job_id\<close> of the record
  stored under it.
\<close>

definition added_ids :: "state \<Rightarrow> state \<Rightarrow> (int \<times> int) list" where
  "added_ids s s' =
     map (\<lambda>kv. (fst kv, job_id (snd kv)))
       (filter (\<lambda>kv. fst kv \<notin> fst ` set (jobs s)) (jobs s'))"

text \<open>
  The two operations on the job table: registering a job for a started process, and
  deleting the entry of an id. \<open>apply_ops\<close> runs a sequence of them and returns what the
  registrations added to the table, in order, read from the table itself.
\<close>

datatype table_op = Register string int | Remove int

fun apply_ops :: "os \<Rightarrow> table_op list \<Rightarrow> state \<Rightarrow> (int \<times> int) list \<times> state" where
  "apply_ops w [] s = ([], s)"
| "apply_ops w (Register label pid # ops) s =
     (case apply_ops w ops (register w label pid s) of
        (ids, s') \<Rightarrow> (added_ids s (register w label pid s) @ ids, s'))"
| "apply_ops w (Remove jid # ops) s = apply_ops w ops (snd (del_job jid s))"

fun is_register :: "table_op \<Rightarrow> bool" where
  "is_register (Register label pid) = True"
| "is_register (Remove jid) = False"

text \<open>
  The shape of the job table in every state the shell reaches: the ids of the entries
  ascend in insertion order and all lie below the counter.
\<close>

definition table_ok :: "state \<Rightarrow> bool" where
  "table_ok s =
     (sorted_wrt (<) (map fst (jobs s)) \<and> list_all (\<lambda>kv. fst kv < job_counter s) (jobs s))"

text \<open>
  An operating system for the examples: the program \<open>nosuch\<close> does not exist,
  \<open>/etc/passwd\<close> is a file and not a directory, no process can be signalled with
  \<open>os.kill\<close>, and the children write nothing.
\<close>

definition demo_os :: os where
  "demo_os =
     \<lparr>spawn_error = (\<lambda>call. if take 1 (args call) = [''nosuch'']
                             then Some (FileNotFoundError,
                                        ''[Errno 2] No such file or directory: ''
                                        @ py_repr ''nosuch'')
                             else None),
      open_error = (\<lambda>path. None),
      chdir_error = (\<lambda>path. if path = ''/etc/passwd''
                             then Some (NotADirectoryError,
                                        ''[Errno 20] Not a directory: '' @ py_repr path)
                             else None),
      kill_error = (\<lambda>pid. Some (ProcessLookupError, ''[Errno 3] No such process'')),
      wait_error = (\<lambda>pid. None),
      putenv_error = (\<lambda>name val. None),
      exit_code = (\<lambda>pid. 0),
      stdout_data = (\<lambda>pid. []),
      stderr_data = (\<lambda>pid. []),
      decode_error = (\<lambda>data. None),
      home = ''/root'',
      resolve = (\<lambda>dir path. path),
      clock = 0\<rparr>"

text \<open>A shell that has just started, in the root directory; its first child gets the
  process id 100.\<close>

definition demo_shell :: state where
  "demo_shell = new_shell [] ''/'' 100"

text \<open>The shell after \<open>sleep 5 &\<close> and \<open>sleep 6 | cat &\<close>, when the first job's process
  has exited with code 0: jobs 1 and 2, of which job 2 still runs.\<close>

definition demo_jobs :: state where
  "demo_jobs =
     set_exited 100 0
       (snd (run_line demo_os ''sleep 6 | cat &''
          (snd (run_line demo_os ''sleep 5 &'' demo_shell))))"

section \<open>Properties of the parser and of alias expansion\<close>

lemma split_on_unfold:
  "split_on c s = takeWhile (\<lambda>x. x \<noteq> c) s #
     (if c \<in> set s then split_on c (drop 1 (dropWhile (\<lambda>x. x \<noteq> c) s)) else [])"
proof (induction s)
  case Nil
  then show ?case by simp
next
  case (Cons x xs)
  then show ?case by (auto split: list.splits)
qed

lemma not_space_gt: "\<not> is_space CHR ''>''"
  by (simp add: is_space_def)

lemma set_strip: "c \<in> set s \<Longrightarrow> \<not> is_space c \<Longrightarrow> c \<in> set (strip s)"
proof -
  assume a: "c \<in> set s" "\<not> is_space c"
  have l: "c \<in> set (dropWhile is_space xs)" if "c \<in> set xs" for xs
    using that a(2) by (induction xs) auto
  show ?thesis
    unfolding strip_def lstrip_def rstrip_def
    using l[of "rev (dropWhile is_space s)"] l[of s] a(1) by simp
qed

lemma endswith_single: "endswith s [c] \<Longrightarrow> s = butlast s @ [c]"
proof -
  assume "endswith s [c]"
  then have len: "1 \<le> length s" and dr: "drop (length s - 1) s = [c]"
    by (simp_all add: endswith_def)
  have "s = take (length s - 1) s @ drop (length s - 1) s" by simp
  with dr have eq: "s = take (length s - 1) s @ [c]" by simp
  then have "butlast s = take (length s - 1) s"
    by (metis butlast_snoc)
  with eq show ?thesis by simp
qed

lemma strip_background_keeps:
  assumes "CHR ''>'' \<in> set line" and "strip_background line = (l, bg)"
  shows "CHR ''>'' \<in> set l"
proof -
  have s: "CHR ''>'' \<in> set (strip line)"
    using assms(1) not_space_gt by (rule set_strip)
  show ?thesis
  proof (cases "endswith (strip line) ''&''")
    case False
    with assms(2) s show ?thesis by (simp add: strip_background_def Let_def)
  next
    case True
    then have "strip line = butlast (strip line) @ [CHR ''&'']"
      by (rule endswith_single)
    then have "set (strip line) = set (butlast (strip line)) \<union> {CHR ''&''}"
      by (metis Un_insert_right list.simps(15) set_append sup_bot.right_neutral empty_set)
    with s have "CHR ''>'' \<in> set (butlast (strip line))" by auto
    then have "CHR ''>'' \<in> set (strip (butlast (strip line)))"
      using not_space_gt by (rule set_strip)
    with True assms(2) show ?thesis by (simp add: strip_background_def Let_def)
  qed
qed

text \<open>
  Claim C4, as the code has it. For every input line that contains \<open>>\<close>, with \<open>l\<close> the
  trimmed line without its background marker: the command part is the text of \<open>l\<close>
  before the first \<open>>\<close>, and the redirect target is the text between the first \<open>>\<close> and
  the next one (or the end of \<open>l\<close> when there is no other), trimmed. Text after a
  second \<open>>\<close> is dropped.
\<close>

theorem parse_command_redirect:
  assumes "CHR ''>'' \<in> set line" and "strip_background line = (l, bg)"
  shows "parse_command line =
     Inr (map (\<lambda>cmd. split_ws (strip cmd))
            (split_on CHR ''|'' (strip (takeWhile (\<lambda>c. c \<noteq> CHR ''>'') l))),
          bg,
          Some (strip (takeWhile (\<lambda>c. c \<noteq> CHR ''>'')
                         (drop 1 (dropWhile (\<lambda>c. c \<noteq> CHR ''>'') l)))))"
proof -
  have in_l: "CHR ''>'' \<in> set l"
    using assms by (rule strip_background_keeps)
  let ?rest = "drop 1 (dropWhile (\<lambda>c. c \<noteq> CHR ''>'') l)"
  have p1: "split_on CHR ''>'' l = takeWhile (\<lambda>c. c \<noteq> CHR ''>'') l # split_on CHR ''>'' ?rest"
    using in_l split_on_unfold [of "CHR ''>''" l] by simp
  have p2: "split_on CHR ''>'' ?rest = takeWhile (\<lambda>c. c \<noteq> CHR ''>'') ?rest #
        (if CHR ''>'' \<in> set ?rest
         then split_on CHR ''>'' (drop 1 (dropWhile (\<lambda>c. c \<noteq> CHR ''>'') ?rest)) else [])"
    by (rule split_on_unfold)
  have parts: "py_index (split_on CHR ''>'' l) 0 = Inr (takeWhile (\<lambda>c. c \<noteq> CHR ''>'') l)"
    "py_index (split_on CHR ''>'' l) 1 = Inr (takeWhile (\<lambda>c. c \<noteq> CHR ''>'') ?rest)"
    by (subst p1, subst p2, simp add: py_index_def Let_def)+
  show ?thesis
    unfolding parse_command_def assms(2)
    using in_l by (simp add: parts Let_def)
qed

theorem parse_command_redirect_witness:
  "CHR ''>'' \<in> set ''ls -la | grep x > out.txt > err.txt &'' \<and>
   strip_background ''ls -la | grep x > out.txt > err.txt &'' =
     (''ls -la | grep x > out.txt > err.txt'', True) \<and>
   parse_command ''ls -la | grep x > out.txt > err.txt &'' =
     Inr ([[''ls'', ''-la''], [''grep'', ''x'']], True, Some ''out.txt'')"
proof -
  have a: "CHR ''>'' \<in> set ''ls -la | grep x > out.txt > err.txt &''" by simp
  have b: "strip_background ''ls -la | grep x > out.txt > err.txt &'' =
      (''ls -la | grep x > out.txt > err.txt'', True)"
    by (simp add: strip_background_def strip_def lstrip_def rstrip_def is_space_def endswith_def)
  show ?thesis
    using a b parse_command_redirect [OF a b]
    by (simp add: strip_def lstrip_def rstrip_def is_space_def split_ws_def)
qed

text \<open>
  Claim C4 as stated fails on a line with two \<open>>\<close>: for \<open>a>b>c\<close> the text after the first
  \<open>>\<close> is \<open>b>c\<close>, and the redirect target the parser returns is \<open>b\<close>.
\<close>

theorem parse_command_redirect_counterexample:
  "parse_command ''a>b>c'' = Inr ([[''a'']], False, Some ''b'') \<and>
   snd (claimed_split ''a>b>c'') = ''b>c''"
  by (simp add: parse_command_def strip_background_def strip_def lstrip_def rstrip_def
      is_space_def endswith_def py_index_def split_ws_def claimed_split_def)

text \<open>
  Claim C6. For every argument list and alias mapping, when the first token is an alias
  key, expansion returns the white-space-split tokens of the alias value followed by the
  remaining tokens unchanged; the result is returned as it is, so a replacement that
  starts with an alias key is not expanded again. With the initial aliases, \<open>ll /tmp\<close>
  becomes \<open>ls -la /tmp\<close>.
\<close>

theorem expand_aliases_first_token:
  "(map_of als c = Some v \<longrightarrow> expand_aliases als (c # rest) = split_ws v @ rest) \<and>
   expand_aliases initial_aliases [''ll'', ''/tmp''] = [''ls'', ''-la'', ''/tmp'']"
  by (simp add: expand_aliases_def initial_aliases_def split_ws_def is_space_def)

theorem expand_aliases_first_token_witness:
  "map_of [(''a'', ''b -x''), (''b'', ''c'')] ''a'' = Some ''b -x'' \<and>
   expand_aliases [(''a'', ''b -x''), (''b'', ''c'')] [''a'', ''z''] = [''b'', ''-x'', ''z'']"
  using expand_aliases_first_token
    [of "[(''a'', ''b -x''), (''b'', ''c'')]" "''a''" "''b -x''" "[''z'']"]
  by (simp add: split_ws_def is_space_def)

section \<open>What the primitives leave unchanged\<close>

lemma emit_simps [simp]:
  "jobs (emit e s) = jobs s" "job_counter (emit e s) = job_counter s"
  "aliases (emit e s) = aliases s" "procs (emit e s) = procs s"
  "next_pid (emit e s) = next_pid s" "trace (emit e s) = trace s @ [e]"
  "history (emit e s) = history s" "environment (emit e s) = environment s"
  "current_dir (emit e s) = current_dir s" "cwd (emit e s) = cwd s"
  "environ (emit e s) = environ s"
  by (simp_all add: emit_def)

lemma print_out_simps [simp]:
  "jobs (print_out t s) = jobs s" "job_counter (print_out t s) = job_counter s"
  "aliases (print_out t s) = aliases s" "procs (print_out t s) = procs s"
  "next_pid (print_out t s) = next_pid s"
  "trace (print_out t s) = trace s @ [Stdout (t @ [CHR 0x0A])]"
  by (simp_all add: print_out_def)

lemma poll_emit [simp]: "poll (emit e s) pid = poll s pid"
  by (simp add: poll_def)

lemma poll_print_out [simp]: "poll (print_out t s) pid = poll s pid"
  by (simp add: print_out_def)

lemma is_running_emit [simp]: "is_running (emit e s) j = is_running s j"
  by (simp add: is_running_def)

lemma is_running_print_out [simp]: "is_running (print_out t s) j = is_running s j"
  by (simp add: is_running_def)



lemma only_spawns_refl: "only_spawns s s"
  by (simp add: only_spawns_def)

lemma only_spawns_trans:
  assumes "only_spawns s s1" and "only_spawns s1 s2"
  shows "only_spawns s s2"
proof -
  from assms obtain evs1 evs2 where
    t1: "trace s1 = trace s @ evs1" "list_all (\<lambda>ev. \<not> signals_or_waits ev) evs1" and
    t2: "trace s2 = trace s1 @ evs2" "list_all (\<lambda>ev. \<not> signals_or_waits ev) evs2"
    by (auto simp: only_spawns_def)
  have tr: "\<exists>evs. trace s2 = trace s @ evs \<and> list_all (\<lambda>ev. \<not> signals_or_waits ev) evs"
    using t1 t2 by (intro exI[of _ "evs1 @ evs2"]) simp
  have le: "next_pid s \<le> next_pid s1" "next_pid s1 \<le> next_pid s2"
    using assms by (simp_all add: only_spawns_def)
  show ?thesis
    unfolding only_spawns_def
    using assms tr le by (simp add: only_spawns_def)
qed

lemma only_spawns_emit:
  assumes "\<not> signals_or_waits ev"
  shows "only_spawns s (emit ev s)"
proof -
  have tr: "\<exists>evs. trace (emit ev s) = trace s @ evs \<and> list_all (\<lambda>ev. \<not> signals_or_waits ev) evs"
    using assms by (intro exI[of _ "[ev]"]) simp
  show ?thesis
    unfolding only_spawns_def using tr by simp
qed

lemma only_spawns_Popen:
  assumes "Popen w call s = (r, s')"
  shows "only_spawns s s'"
proof (cases r)
  case (Inl e)
  with assms have "s' = s"
    by (auto simp: Popen_def split: list.splits option.splits)
  then show ?thesis by (simp add: only_spawns_refl)
next
  case (Inr pid)
  with assms have s': "s' = emit (Spawned (next_pid s) call)
                 (s\<lparr>procs := (procs s)(next_pid s \<mapsto>
                                \<lparr>ch_status = Running, ch_stdout = p_stdout call\<rparr>),
                    next_pid := next_pid s + 1\<rparr>)"
    by (auto simp: Popen_def split: list.splits option.splits)
  have "\<exists>evs. trace s' = trace s @ evs \<and> list_all (\<lambda>ev. \<not> signals_or_waits ev) evs"
    unfolding s' by (intro exI[of _ "[Spawned (next_pid s) call]"]) simp
  then show ?thesis
    unfolding only_spawns_def by (simp add: s')
qed

lemma only_spawns_open_redirect:
  assumes "open_redirect w rf s = (r, s')"
  shows "only_spawns s s'"
proof -
  have "s' = s \<or> (\<exists>path. s' = emit (Opened path) s)"
    using assms
    by (auto simp: open_redirect_def open_w_def split: option.splits if_splits)
  then show ?thesis
    by (auto simp: only_spawns_refl only_spawns_emit)
qed

lemma spawn_stage_only_spawns:
  assumes "spawn_stage w n rf i c ps s = (r, s')"
  shows "only_spawns s s'"
proof (cases "if 0 < i then (case py_index ps (i - 1) of Inl e \<Rightarrow> Inl e | Inr prev \<Rightarrow> Inr (Stdout_of prev)) else (Inr Inherit :: exc + stream)")
  case (Inl e)
  with assms have "s' = s" by (simp add: spawn_stage_def Let_def)
  then show ?thesis by (simp add: only_spawns_refl)
next
  case (Inr stdin)
  obtain ro sa where o: "(if i = n - 1 then open_redirect w rf s else (Inr None, s)) = (ro, sa)"
    by fastforce
  have sa: "only_spawns s sa"
    using o only_spawns_open_redirect only_spawns_refl by (auto split: if_splits)
  show ?thesis
  proof (cases ro)
    case (Inl e)
    with assms Inr o have "s' = sa" by (simp add: spawn_stage_def Let_def)
    with sa show ?thesis by simp
  next
    case fl: (Inr fl)
    let ?call = "\<lparr>args = expand_aliases (aliases s) c, p_stdin = stdin,
        p_stdout = (case fl of Some f \<Rightarrow> f | None \<Rightarrow> (if i < n - 1 then Pipe else Inherit)),
        p_cwd = current_dir sa, p_env = environment sa\<rparr>"
    obtain rp sb where p: "Popen w ?call sa = (rp, sb)"
      by fastforce
    have sb: "only_spawns s sb"
      using sa only_spawns_Popen[OF p] by (rule only_spawns_trans)
    have "s' = sb \<or> (\<exists>prev. s' = emit (Closed_stdout prev) sb)"
      using assms Inr o fl p
      by (auto simp: spawn_stage_def Let_def split: sum.splits if_splits)
    then show ?thesis
    proof
      assume "s' = sb"
      with sb show ?thesis by simp
    next
      assume "\<exists>prev. s' = emit (Closed_stdout prev) sb"
      then obtain prev where s': "s' = emit (Closed_stdout prev) sb" ..
      have "only_spawns sb (emit (Closed_stdout prev) sb)"
        by (rule only_spawns_emit) simp
      with sb show ?thesis
        unfolding s' by (rule only_spawns_trans)
    qed
  qed
qed

lemma spawn_stages_only_spawns:
  "spawn_stages w n rf i cmds ps s = (r, s1) \<Longrightarrow> only_spawns s s1"
proof (induction cmds arbitrary: i ps s)
  case Nil
  then show ?case by (simp add: only_spawns_refl)
next
  case (Cons c cmds)
  obtain r1 sa where st: "spawn_stage w n rf i c ps s = (r1, sa)"
    by fastforce
  have sa: "only_spawns s sa"
    using st by (rule spawn_stage_only_spawns)
  show ?case
  proof (cases r1)
    case (Inl e)
    with Cons.prems st sa show ?thesis by simp
  next
    case (Inr ps1)
    with Cons.prems st have "spawn_stages w n rf (i + 1) cmds ps1 sa = (r, s1)" by simp
    then have "only_spawns sa s1" by (rule Cons.IH)
    with sa show ?thesis by (rule only_spawns_trans)
  qed
qed

lemmas eval_defs =
  parse_command_def strip_background_def strip_def lstrip_def rstrip_def is_space_def
  endswith_def py_index_def split_ws_def expand_aliases_def initial_aliases_def
  demo_os_def demo_shell_def new_shell_def emit_def print_out_def poll_def set_exited_def
  Popen_def wait_proc_def communicate_def os_kill_def terminate_def open_w_def chdir_def
  putenv_def is_running_def get_status_def register_def del_job_def show_jobs_def
  resolve_fg_def foreground_job_def background_job_def kill_caught_def kill_except_def
  kill_job_def builtin_cd_def execute_builtin_def truthy_def open_redirect_def
  is_Exception_def print_captured_def run_single_def single_except_def spawn_stage_def
  chain_except_def execute_pipeline_chain_def execute_pipeline_def reap_def run_line_def
  run_def history_append_def show_int_def show_nat.simps digit_char_def Let_def
  print_decoded_def py_repr_def repr_char_def is_printable_def hex_digit_def

section \<open>A spawn failure in a pipeline\<close>

text \<open>
  Claim C1, as the code has it. When the spawning loop of a multi-stage pipeline raises
  an exception of class \<open>Exception\<close> (a stage fails to start, or the redirect target
  cannot be opened), the error is printed as a pipeline error and no job is registered;
  during the attempt the shell sends no signal to a child and waits for none, so the
  stages started before the failure are neither terminated nor reaped.
\<close>

theorem chain_failure_leaves_children:
  assumes "spawn_stages w (int (length commands)) rf 0 commands [] s = (Inl e, s1)"
    and "is_Exception e"
  shows "execute_pipeline_chain w commands bg rf s =
           (None, print_out (''Pipeline error: '' @ snd e) s1) \<and>
         jobs s1 = jobs s \<and> job_counter s1 = job_counter s \<and>
         (\<exists>evs. trace s1 = trace s @ evs \<and> list_all (\<lambda>ev. \<not> signals_or_waits ev) evs)"
proof -
  have "only_spawns s s1"
    using assms(1) by (rule spawn_stages_only_spawns)
  moreover have "execute_pipeline_chain w commands bg rf s =
           (None, print_out (''Pipeline error: '' @ snd e) s1)"
    using assms by (simp add: execute_pipeline_chain_def chain_except_def)
  ultimately show ?thesis
    by (simp add: only_spawns_def)
qed

theorem chain_failure_leaves_children_witness:
  "fst (spawn_stages demo_os 3 None 0 [[''sleep'', ''100''], [''nosuch''], [''cat'']] []
          demo_shell) = Inl (FileNotFoundError, ''[Errno 2] No such file or directory: '' @ py_repr ''nosuch'') \<and>
   is_Exception (FileNotFoundError, ''[Errno 2] No such file or directory: '' @ py_repr ''nosuch'') \<and>
   fst (execute_pipeline_chain demo_os [[''sleep'', ''100''], [''nosuch''], [''cat'']]
          True None demo_shell) = None \<and>
   jobs (snd (execute_pipeline_chain demo_os [[''sleep'', ''100''], [''nosuch''], [''cat'']]
          True None demo_shell)) = []"
proof -
  let ?cmds = "[[''sleep'', ''100''], [''nosuch''], [''cat'']]"
  let ?e = "(FileNotFoundError, ''[Errno 2] No such file or directory: '' @ py_repr ''nosuch'')"
  have a: "fst (spawn_stages demo_os 3 None 0 ?cmds [] demo_shell) = Inl ?e"
    by (simp add: eval_defs)
  then have a': "spawn_stages demo_os (int (length ?cmds)) None 0 ?cmds [] demo_shell =
      (Inl ?e, snd (spawn_stages demo_os 3 None 0 ?cmds [] demo_shell))"
    by (simp add: prod_eq_iff)
  have b: "is_Exception ?e"
    by (simp add: is_Exception_def)
  have j: "jobs demo_shell = []"
    by (simp add: demo_shell_def new_shell_def)
  show ?thesis
    using a b j chain_failure_leaves_children [OF a' b, of True]
    by simp
qed

text \<open>
  Claim C1 as stated fails: in \<open>sleep 100 | nosuch | cat\<close> the second stage does not
  start; the first stage, process 100, was started, and up to the error message the
  shell neither signals it nor waits for it: it is left running.
\<close>

theorem chain_failure_counterexample:
  "trace (snd (execute_pipeline_chain demo_os [[''sleep'', ''100''], [''nosuch''], [''cat'']]
                 False None demo_shell)) =
     [Spawned 100 \<lparr>args = [''sleep'', ''100''], p_stdin = Inherit, p_stdout = Pipe,
                    p_cwd = ''/'', p_env = []\<rparr>,
      Stdout (''Pipeline error: [Errno 2] No such file or directory: '' @ py_repr ''nosuch''
              @ [CHR 0x0A])] \<and>
   map_option ch_status
     (procs (snd (execute_pipeline_chain demo_os [[''sleep'', ''100''], [''nosuch''], [''cat'']]
                    False None demo_shell)) 100) = Some Running"
  by (simp add: eval_defs)

section \<open>The handles of a background pipeline\<close>

lemma spawn_stage_result:
  assumes "spawn_stage w n rf i c ps s = (Inr ps1, s1)"
  shows "ps1 = ps @ [next_pid s] \<and> next_pid s1 = next_pid s + 1"
proof -
  obtain stdin where st: "(if 0 < i then (case py_index ps (i - 1) of Inl e \<Rightarrow> Inl e | Inr prev \<Rightarrow> Inr (Stdout_of prev)) else (Inr Inherit :: exc + stream)) = Inr stdin"
    using assms by (cases "if 0 < i then (case py_index ps (i - 1) of Inl e \<Rightarrow> Inl e | Inr prev \<Rightarrow> Inr (Stdout_of prev)) else (Inr Inherit :: exc + stream)")
      (simp_all add: spawn_stage_def Let_def)
  obtain ro sa where o: "(if i = n - 1 then open_redirect w rf s else (Inr None, s)) = (ro, sa)"
    by fastforce
  have sa: "next_pid sa = next_pid s"
    using o by (auto simp: open_redirect_def open_w_def split: if_splits option.splits)
  obtain fl where fl: "ro = Inr fl"
    using assms st o by (cases ro) (simp_all add: spawn_stage_def Let_def)
  let ?call = "\<lparr>args = expand_aliases (aliases s) c, p_stdin = stdin,
        p_stdout = (case fl of Some f \<Rightarrow> f | None \<Rightarrow> (if i < n - 1 then Pipe else Inherit)),
        p_cwd = current_dir sa, p_env = environment sa\<rparr>"
  obtain rp sb where p: "Popen w ?call sa = (rp, sb)"
    by fastforce
  obtain pid where pid: "rp = Inr pid"
    using assms st o fl p by (cases rp) (simp_all add: spawn_stage_def Let_def)
  have sb: "pid = next_pid sa" "next_pid sb = next_pid sa + 1"
    using p pid by (auto simp: Popen_def split: list.splits option.splits)
  have "ps1 = ps @ [pid] \<and> next_pid s1 = next_pid sb"
    using assms st o fl p pid
    by (auto simp: spawn_stage_def Let_def split: if_splits sum.splits)
  with sa sb show ?thesis by simp
qed

lemma spawn_stages_result:
  "spawn_stages w n rf i cmds ps s = (Inr ps1, s1) \<Longrightarrow>
     ps1 = ps @ map (\<lambda>k. next_pid s + int k) [0..<length cmds] \<and>
     next_pid s1 = next_pid s + int (length cmds)"
proof (induction cmds arbitrary: i ps s)
  case Nil
  then show ?case by simp
next
  case (Cons c cmds)
  obtain r1 sa where st: "spawn_stage w n rf i c ps s = (r1, sa)"
    by fastforce
  with Cons.prems obtain ps' where r1: "r1 = Inr ps'"
    by (cases r1) simp_all
  have a: "ps' = ps @ [next_pid s]" "next_pid sa = next_pid s + 1"
    using spawn_stage_result st r1 by blast+
  have "spawn_stages w n rf (i + 1) cmds ps' sa = (Inr ps1, s1)"
    using Cons.prems st r1 by simp
  then have ih: "ps1 = ps' @ map (\<lambda>k. next_pid sa + int k) [0..<length cmds]"
      "next_pid s1 = next_pid sa + int (length cmds)"
    using Cons.IH by blast+
  have "map (\<lambda>k. next_pid s + int k) [0..<length (c # cmds)] =
        next_pid s # map (\<lambda>k. next_pid s + 1 + int k) [0..<length cmds]"
    by (simp add: upt_conv_Cons map_Suc_upt[symmetric] del: upt_Suc)
  with ih a show ?case by simp
qed

text \<open>
  Claim C9, as the code has it. When all \<open>n\<close> stages of a background pipeline start,
  stage \<open>k\<close> runs as the \<open>k\<close>-th process started, and the job record that is
  registered under the current counter holds one process handle only: that of the last
  stage.
\<close>

theorem background_chain_job:
  assumes "spawn_stages w (int (length commands)) rf 0 commands [] s = (Inr processes, s1)"
    and "commands \<noteq> []"
  shows "processes = map (\<lambda>k. next_pid s + int k) [0..<length commands] \<and>
         (\<exists>j s'. execute_pipeline_chain w commands True rf s = (None, s') \<and>
            jobs s' = dict_set (job_counter s) j (jobs s) \<and>
            job_processes j = [next_pid s + int (length commands) - 1])"
proof -
  have ps: "processes = map (\<lambda>k. next_pid s + int k) [0..<length commands]"
    using spawn_stages_result[OF assms(1)] by simp
  have fr: "jobs s1 = jobs s" "job_counter s1 = job_counter s"
    using spawn_stages_only_spawns[OF assms(1)] by (simp_all add: only_spawns_def)
  have len: "length processes = length commands" using ps by simp
  then have ne: "processes \<noteq> []" using assms(2) by auto
  have lastp: "py_index processes (- 1) = Inr (next_pid s + int (length commands) - 1)"
  proof -
    have "0 < length commands" using assms(2) by simp
    then have "nat (int (length commands) + - 1) = length commands - 1"
      by simp
    moreover have "processes ! (length commands - 1) = next_pid s + int (length commands - 1)"
      using ps \<open>0 < length commands\<close> by simp
    moreover have "Suc 0 \<le> length commands"
      using assms(2) by (cases commands) simp_all
    ultimately show ?thesis
      using len by (simp add: py_index_def of_nat_diff)
  qed
  let ?pid = "next_pid s + int (length commands) - 1"
  let ?label = "str_join '' | '' (map (str_join '' '') commands)"
  let ?j = "\<lparr>job_id = job_counter s, command = ?label, process = ?pid,
             status = ''running'', start_time = clock w\<rparr>"
  have ex: "execute_pipeline_chain w commands True rf s = (None, register w ?label ?pid s1)"
    using assms(1) lastp by (simp add: execute_pipeline_chain_def)
  have js: "jobs (register w ?label ?pid s1) = dict_set (job_counter s) ?j (jobs s)"
    using fr by (simp add: register_def Let_def)
  have jp: "job_processes ?j = [?pid]"
    by (simp add: job_processes_def)
  from ex js jp have "\<exists>j s'. execute_pipeline_chain w commands True rf s = (None, s') \<and>
            jobs s' = dict_set (job_counter s) j (jobs s) \<and> job_processes j = [?pid]"
    by blast
  with ps show ?thesis by simp
qed

theorem background_chain_job_witness:
  "fst (spawn_stages demo_os 2 None 0 [[''sleep'', ''6''], [''cat'']] [] demo_shell) =
     Inr [100, 101] \<and>
   [[''sleep'', ''6''], [''cat'']] \<noteq> [] \<and>
   fst (execute_pipeline_chain demo_os [[''sleep'', ''6''], [''cat'']] True None demo_shell) =
     None"
proof -
  let ?cmds = "[[''sleep'', ''6''], [''cat'']]"
  have a: "fst (spawn_stages demo_os 2 None 0 ?cmds [] demo_shell) = Inr [100, 101]"
    by (simp add: eval_defs)
  then have a': "spawn_stages demo_os (int (length ?cmds)) None 0 ?cmds [] demo_shell =
      (Inr [100, 101], snd (spawn_stages demo_os 2 None 0 ?cmds [] demo_shell))"
    by (simp add: prod_eq_iff)
  have b: "?cmds \<noteq> []" by simp
  show ?thesis
    using a background_chain_job [OF a' b] by auto
qed

text \<open>
  Claim C9 as stated fails: the job registered for the two-stage background pipeline
  \<open>sleep 6 | cat\<close> holds one handle, process 101 of the last stage, not two.
\<close>

theorem background_chain_counterexample:
  "map (\<lambda>kv. job_processes (snd kv))
     (jobs (snd (execute_pipeline_chain demo_os [[''sleep'', ''6''], [''cat'']] True None
                   demo_shell))) = [[101]]"
  by (simp add: eval_defs job_processes_def)

section \<open>Bringing a finished job to the foreground\<close>

text \<open>
  Claim C10. When \<open>fg\<close> resolves to a job of the table whose process has exited, the call
  returns with the state as it was: no wait, no message, and the entry stays in the
  table unchanged.
\<close>

theorem foreground_job_finished:
  assumes "resolve_fg argv s = Inr jid" and "map_of (jobs s) jid = Some j"
    and "\<not> is_running s j"
  shows "foreground_job w argv s = (None, s)"
  using assms by (simp add: foreground_job_def)

lemma demo_jobs_table:
  "jobs demo_jobs =
     [(1, \<lparr>job_id = 1, command = ''sleep 5'', process = 100, status = ''running'',
            start_time = 0\<rparr>),
      (2, \<lparr>job_id = 2, command = ''sleep 6 | cat'', process = 102, status = ''running'',
            start_time = 0\<rparr>)]"
  "job_counter demo_jobs = 3"
  "poll demo_jobs 100 = Some 0" "poll demo_jobs 102 = None"
  by (simp_all add: demo_jobs_def eval_defs)

theorem foreground_job_finished_witness:
  "resolve_fg [''1''] demo_jobs = Inr 1 \<and>
   map_of (jobs demo_jobs) 1 =
     Some \<lparr>job_id = 1, command = ''sleep 5'', process = 100, status = ''running'',
           start_time = 0\<rparr> \<and>
   \<not> is_running demo_jobs \<lparr>job_id = 1, command = ''sleep 5'', process = 100,
                              status = ''running'', start_time = 0\<rparr> \<and>
   foreground_job demo_os [''1''] demo_jobs = (None, demo_jobs)"
proof -
  let ?j = "\<lparr>job_id = 1, command = ''sleep 5'', process = 100, status = ''running'',
             start_time = 0\<rparr>"
  have a: "resolve_fg [''1''] demo_jobs = Inr 1"
    by (simp add: resolve_fg_def py_int_def is_int_space_def is_digit_def digits_value_def)
  have b: "map_of (jobs demo_jobs) 1 = Some ?j"
    by (simp add: demo_jobs_table)
  have c: "\<not> is_running demo_jobs ?j"
    by (simp add: is_running_def demo_jobs_table)
  show ?thesis
    using a b c foreground_job_finished [OF a b c, of demo_os] by simp
qed

section \<open>The kill built-in\<close>





section \<open>Stages without tokens\<close>

lemma Popen_empty:
  "args call = [] \<Longrightarrow> Popen w call s = (Inl (IndexError, ''list index out of range''), s)"
  by (simp add: Popen_def)

lemma spawn_stage_empty:
  "\<exists>e s1. spawn_stage w n rf i [] ps s = (Inl e, s1)"
proof (cases "if 0 < i then (case py_index ps (i - 1) of Inl e \<Rightarrow> Inl e | Inr prev \<Rightarrow> Inr (Stdout_of prev)) else (Inr Inherit :: exc + stream)")
  case (Inl e)
  then show ?thesis by (simp add: spawn_stage_def Let_def)
next
  case (Inr stdin)
  obtain ro sa where o: "(if i = n - 1 then open_redirect w rf s else (Inr None, s)) = (ro, sa)"
    by fastforce
  show ?thesis
  proof (cases ro)
    case (Inl e)
    with Inr o show ?thesis by (simp add: spawn_stage_def Let_def)
  next
    case fl: (Inr fl)
    with Inr o show ?thesis
      by (simp add: spawn_stage_def Let_def expand_aliases_def Popen_empty)
  qed
qed

lemma spawn_stages_empty:
  "[] \<in> set cmds \<Longrightarrow> \<exists>e s1. spawn_stages w n rf i cmds ps s = (Inl e, s1)"
proof (induction cmds arbitrary: i ps s)
  case Nil
  then show ?case by simp
next
  case (Cons c cmds)
  obtain r1 sa where st: "spawn_stage w n rf i c ps s = (r1, sa)"
    by fastforce
  show ?case
  proof (cases r1)
    case (Inl e)
    with st show ?thesis by simp
  next
    case (Inr ps1)
    have "c \<noteq> []"
      using spawn_stage_empty[of w n rf i ps s] st Inr by auto
    with Cons.prems have "[] \<in> set cmds" by auto
    then obtain e s1 where "spawn_stages w n rf (i + 1) cmds ps1 sa = (Inl e, s1)"
      using Cons.IH by blast
    with st Inr show ?thesis by simp
  qed
qed

lemma spawn_stage_error_source:
  assumes "spawn_stage w n rf i c ps s = (Inl e, s1)"
  shows "e = (IndexError, ''list index out of range'') \<or>
         (\<exists>call. spawn_error w call = Some e) \<or> (\<exists>path. open_error w path = Some e)"
proof (cases "if 0 < i then (case py_index ps (i - 1) of Inl e \<Rightarrow> Inl e | Inr prev \<Rightarrow> Inr (Stdout_of prev)) else (Inr Inherit :: exc + stream)")
  case (Inl e')
  then have "e' = (IndexError, ''list index out of range'')"
    by (auto simp: py_index_def split: if_splits sum.splits)
  with Inl assms show ?thesis by (simp add: spawn_stage_def Let_def)
next
  case (Inr stdin)
  obtain ro sa where o: "(if i = n - 1 then open_redirect w rf s else (Inr None, s)) = (ro, sa)"
    by fastforce
  show ?thesis
  proof (cases ro)
    case (Inl e')
    with o have "\<exists>path. open_error w path = Some e'"
      by (auto simp: open_redirect_def open_w_def split: if_splits option.splits)
    with Inr o Inl assms show ?thesis by (auto simp: spawn_stage_def Let_def)
  next
    case fl: (Inr fl)
    let ?call = "\<lparr>args = expand_aliases (aliases s) c, p_stdin = stdin,
        p_stdout = (case fl of Some f \<Rightarrow> f | None \<Rightarrow> (if i < n - 1 then Pipe else Inherit)),
        p_cwd = current_dir sa, p_env = environment sa\<rparr>"
    obtain rp sb where p: "Popen w ?call sa = (rp, sb)"
      by fastforce
    show ?thesis
    proof (cases rp)
      case (Inl e')
      with p have "e' = (IndexError, ''list index out of range'') \<or>
          (\<exists>call. spawn_error w call = Some e')"
        by (auto simp: Popen_def split: list.splits option.splits)
      with Inr o fl p Inl assms show ?thesis by (auto simp: spawn_stage_def Let_def)
    next
      case pid: (Inr pid)
      with Inr o fl p assms have "e = (IndexError, ''list index out of range'')"
        by (auto simp: spawn_stage_def Let_def py_index_def split: if_splits sum.splits)
      then show ?thesis by simp
    qed
  qed
qed

lemma spawn_stages_error_source:
  "spawn_stages w n rf i cmds ps s = (Inl e, s1) \<Longrightarrow>
     e = (IndexError, ''list index out of range'') \<or>
     (\<exists>call. spawn_error w call = Some e) \<or> (\<exists>path. open_error w path = Some e)"
proof (induction cmds arbitrary: i ps s)
  case Nil
  then show ?case by simp
next
  case (Cons c cmds)
  obtain r1 sa where st: "spawn_stage w n rf i c ps s = (r1, sa)"
    by fastforce
  show ?case
  proof (cases r1)
    case (Inl e')
    with Cons.prems st have "spawn_stage w n rf i c ps s = (Inl e, s1)" by simp
    then show ?thesis by (rule spawn_stage_error_source)
  next
    case (Inr ps1)
    with Cons.prems st have "spawn_stages w n rf (i + 1) cmds ps1 sa = (Inl e, s1)" by simp
    then show ?thesis by (rule Cons.IH)
  qed
qed

text \<open>
  Claim C5, as the code has it. A stage without tokens that is alone on its line is
  taken as handled by the built-in dispatch: nothing is started and nothing is printed.
  In a pipeline of several stages that has such a stage, the spawning loop raises at
  that stage or before it, no job is registered, and, the failures of \<open>open\<close> and \<open>Popen\<close>
  being of class \<open>Exception\<close>, the error that was raised is printed as a pipeline error.
  When the empty stage is the first one, what is printed is the \<open>IndexError\<close> of \<open>Popen\<close>:
  \<open>Pipeline error: list index out of range\<close>.
\<close>

theorem empty_stage:
  assumes "\<forall>call e. spawn_error w call = Some e \<longrightarrow> is_Exception e"
    and "\<forall>path e. open_error w path = Some e \<longrightarrow> is_Exception e"
  shows "execute_pipeline w [[]] bg rf s = (None, s) \<and>
   execute_pipeline w ([] # c # cs) bg rf s =
     (None, print_out ''Pipeline error: list index out of range'' s) \<and>
   (length commands \<noteq> 1 \<and> [] \<in> set commands \<longrightarrow>
      (\<exists>e s1. spawn_stages w (int (length commands)) rf 0 commands [] s = (Inl e, s1) \<and>
               is_Exception e \<and>
               execute_pipeline w commands bg rf s =
                 (None, print_out (''Pipeline error: '' @ snd e) s1) \<and>
               jobs s1 = jobs s \<and> job_counter s1 = job_counter s))"
proof -
  have single: "execute_pipeline w [[]] bg rf s = (None, s)"
    by (simp add: execute_pipeline_def py_index_def expand_aliases_def execute_builtin_def)
  have first: "execute_pipeline w ([] # c # cs) bg rf s =
     (None, print_out ''Pipeline error: list index out of range'' s)"
  proof -
    have "spawn_stage w (int (length ([] # c # cs))) rf 0 [] [] s =
        (Inl (IndexError, ''list index out of range''), s)"
      by (simp add: spawn_stage_def expand_aliases_def Popen_empty)
    then show ?thesis
      by (simp add: execute_pipeline_def execute_pipeline_chain_def chain_except_def
          is_Exception_def)
  qed
  have chain: "\<exists>e s1. spawn_stages w (int (length commands)) rf 0 commands [] s = (Inl e, s1) \<and>
               is_Exception e \<and>
               execute_pipeline w commands bg rf s =
                 (None, print_out (''Pipeline error: '' @ snd e) s1) \<and>
               jobs s1 = jobs s \<and> job_counter s1 = job_counter s"
    if ne: "length commands \<noteq> 1" and mem: "[] \<in> set commands"
  proof -
    obtain e s1 where sp: "spawn_stages w (int (length commands)) rf 0 commands [] s = (Inl e, s1)"
      using spawn_stages_empty[OF mem] by blast
    have "e = (IndexError, ''list index out of range'') \<or>
         (\<exists>call. spawn_error w call = Some e) \<or> (\<exists>path. open_error w path = Some e)"
      using sp by (rule spawn_stages_error_source)
    then have ex: "is_Exception e"
    proof (elim disjE exE)
      assume "e = (IndexError, ''list index out of range'')"
      then show ?thesis by (simp add: is_Exception_def)
    next
      fix call assume "spawn_error w call = Some e"
      then show ?thesis using assms(1) by blast
    next
      fix path assume "open_error w path = Some e"
      then show ?thesis using assms(2) by blast
    qed
    have "only_spawns s s1"
      using sp by (rule spawn_stages_only_spawns)
    then have "jobs s1 = jobs s" "job_counter s1 = job_counter s"
      by (simp_all add: only_spawns_def)
    moreover have "execute_pipeline w commands bg rf s =
        (None, print_out (''Pipeline error: '' @ snd e) s1)"
      using ne sp ex by (simp add: execute_pipeline_def execute_pipeline_chain_def chain_except_def)
    ultimately show ?thesis using sp ex by blast
  qed
  show ?thesis
    using single first chain by blast
qed

theorem empty_stage_witness:
  "parse_command ''ls || wc'' = Inr ([[''ls''], [], [''wc'']], False, None) \<and>
   length [[''ls''], [], [''wc'']] \<noteq> 1 \<and> [] \<in> set [[''ls''], [], [''wc'']] \<and>
   fst (execute_pipeline demo_os [[''ls''], [], [''wc'']] False None demo_shell) = None \<and>
   trace (snd (execute_pipeline demo_os [[''ls''], [], [''wc'']] False None demo_shell)) =
     [Spawned 100 \<lparr>args = [''ls''], p_stdin = Inherit, p_stdout = Pipe,
                    p_cwd = ''/'', p_env = []\<rparr>,
      Stdout ''Pipeline error: list index out of range\<newline>''] \<and>
   jobs (snd (execute_pipeline demo_os [[''ls''], [], [''wc'']] False None demo_shell)) = []"
proof -
  have h1: "\<forall>call e. spawn_error demo_os call = Some e \<longrightarrow> is_Exception e"
    by (auto simp: demo_os_def is_Exception_def split: if_splits)
  have h2: "\<forall>path e. open_error demo_os path = Some e \<longrightarrow> is_Exception e"
    by (simp add: demo_os_def)
  have p: "parse_command ''ls || wc'' = Inr ([[''ls''], [], [''wc'']], False, None)"
    by (simp add: eval_defs)
  have t: "trace (snd (execute_pipeline demo_os [[''ls''], [], [''wc'']] False None
                         demo_shell)) =
     [Spawned 100 \<lparr>args = [''ls''], p_stdin = Inherit, p_stdout = Pipe,
                    p_cwd = ''/'', p_env = []\<rparr>,
      Stdout ''Pipeline error: list index out of range\<newline>'']"
    by (simp add: eval_defs)
  have j: "jobs demo_shell = []"
    by (simp add: demo_shell_def new_shell_def)
  show ?thesis
    using p t j empty_stage [where w = demo_os and bg = False and rf = None
        and s = demo_shell and c = "[''x'']" and cs = "[]"
        and commands = "[[''ls''], [], [''wc'']]", OF h1 h2]
    by auto
qed

text \<open>
  Claim C5 as stated fails for a line that is only a background marker: it parses to one
  stage without tokens, and running it returns with the state as it was, so nothing is
  reported.
\<close>

theorem empty_stage_counterexample:
  "parse_command ''&'' = Inr ([[]], True, None) \<and>
   execute_pipeline demo_os [[]] True None demo_shell = (None, demo_shell)"
  by (simp add: eval_defs)

section \<open>Errors that leave the main loop\<close>

text \<open>
  Claim C2 at \<open>cd /etc/passwd\<close>, where the path is a file: \<open>os.chdir\<close> raises
  \<open>NotADirectoryError\<close>, which neither the clause of \<open>cd\<close> nor a clause of the main loop
  catches. The exception leaves \<open>run\<close>, and the next line is never read.
\<close>

theorem run_cd_not_a_directory:
  "run demo_os [Line ''cd /etc/passwd'', Line ''pwd''] demo_shell =
     (Uncaught (NotADirectoryError,
                ''[Errno 20] Not a directory: '' @ py_repr ''/etc/passwd''),
      emit Prompt
        (print_out ''Unix Shell with Job Scheduling - Type 'exit' to quit''
           (demo_shell\<lparr>history := [''cd /etc/passwd'']\<rparr>)))"
  by (simp add: eval_defs)

section \<open>The jobs built-in\<close>

lemma get_status_print_out [simp]: "get_status (print_out t s) j = get_status s j"
  by (simp add: get_status_def)

lemma print_jobs_frame:
  "jobs (print_jobs js s) = jobs s \<and> job_counter (print_jobs js s) = job_counter s \<and>
   procs (print_jobs js s) = procs s \<and>
   trace (print_jobs js s) =
     trace s @ map (\<lambda>kv. Stdout (''['' @ show_int (fst kv) @ '']  '' @ get_status s (snd kv)
                                 @ ''    '' @ command (snd kv) @ [CHR 0x0A])) js"
proof (induction js arbitrary: s)
  case Nil
  then show ?case by simp
next
  case (Cons kv js)
  obtain jid j where kv: "kv = (jid, j)" by (cases kv)
  show ?case
    unfolding kv using Cons.IH[of "print_out (''['' @ show_int jid @ '']  '' @ get_status s j @ ''    '' @ command j) s"]
    by simp
qed

lemma is_running_procs: "procs s1 = procs s \<Longrightarrow> is_running s1 j = is_running s j"
  by (simp add: is_running_def poll_def)

lemma del_jobs_filter:
  "distinct ks \<Longrightarrow> set ks \<subseteq> fst ` set (jobs s) \<Longrightarrow>
   del_jobs ks s = (None, s\<lparr>jobs := filter (\<lambda>kv. fst kv \<notin> set ks) (jobs s)\<rparr>)"
proof (induction ks arbitrary: s)
  case Nil
  then show ?case by simp
next
  case (Cons k ks)
  let ?s1 = "s\<lparr>jobs := filter (\<lambda>kv. fst kv \<noteq> k) (jobs s)\<rparr>"
  have d: "del_job k s = (None, ?s1)"
    using Cons.prems(2) by (simp add: del_job_def)
  have sub: "set ks \<subseteq> fst ` set (jobs ?s1)"
    using Cons.prems by force
  have "del_jobs ks ?s1 = (None, ?s1\<lparr>jobs := filter (\<lambda>kv. fst kv \<notin> set ks) (jobs ?s1)\<rparr>)"
    using Cons.prems(1) sub by (intro Cons.IH) simp_all
  moreover have "filter (\<lambda>kv. fst kv \<notin> set ks) (filter (\<lambda>kv. fst kv \<noteq> k) (jobs s)) =
      filter (\<lambda>kv. fst kv \<notin> set (k # ks)) (jobs s)"
    by (auto intro: filter_cong)
  ultimately show ?case
    using d by simp
qed

lemma filter_by_keys:
  assumes "distinct (map fst xs)"
  shows "filter (\<lambda>kv. fst kv \<notin> set (map fst (filter (\<lambda>kv. \<not> P kv) xs))) xs = filter P xs"
proof (rule filter_cong[OF refl])
  fix kv assume kv: "kv \<in> set xs"
  have "fst kv \<in> fst ` {x \<in> set xs. \<not> P x} \<longleftrightarrow> \<not> P kv"
  proof
    assume "fst kv \<in> fst ` {x \<in> set xs. \<not> P x}"
    then obtain x where x: "x \<in> set xs" "\<not> P x" "fst x = fst kv" by auto
    have "inj_on fst (set xs)" using assms by (simp add: distinct_map)
    with x(1,3) kv have "x = kv" by (auto dest: inj_onD)
    with x(2) show "\<not> P kv" by simp
  next
    assume "\<not> P kv"
    with kv show "fst kv \<in> fst ` {x \<in> set xs. \<not> P x}" by auto
  qed
  then show "(fst kv \<notin> set (map fst (filter (\<lambda>kv. \<not> P kv) xs))) = P kv"
    by auto
qed

lemma table_ok_distinct: "table_ok s \<Longrightarrow> distinct (map fst (jobs s))"
  by (simp add: table_ok_def strict_sorted_iff)

text \<open>
  Claim C7. In a state the shell reaches (the ids of the table ascend in insertion order
  and lie below the counter), \<open>jobs\<close> prints one line for every entry of the table, with
  its id, its status and its label, in the order of the table, which is ascending by id;
  then it removes the entries whose process has exited and keeps every entry whose
  process still runs. The processes themselves are not touched.
\<close>

theorem show_jobs_lists_and_reaps:
  assumes "table_ok s"
  shows "\<exists>s'. show_jobs s = (None, s') \<and>
     trace s' = trace s @ map (\<lambda>kv. Stdout (''['' @ show_int (fst kv) @ '']  ''
                                  @ get_status s (snd kv) @ ''    '' @ command (snd kv)
                                  @ [CHR 0x0A])) (jobs s) \<and>
     sorted_wrt (<) (map fst (jobs s)) \<and>
     jobs s' = filter (\<lambda>kv. is_running s (snd kv)) (jobs s) \<and>
     job_counter s' = job_counter s \<and> procs s' = procs s"
proof (cases "jobs s = []")
  case True
  with assms show ?thesis by (simp add: show_jobs_def)
next
  case False
  let ?s1 = "print_jobs (jobs s) s"
  let ?done = "map fst (filter (\<lambda>kv. \<not> is_running s (snd kv)) (jobs s))"
  have fr: "jobs ?s1 = jobs s" "job_counter ?s1 = job_counter s" "procs ?s1 = procs s"
    "trace ?s1 = trace s @ map (\<lambda>kv. Stdout (''['' @ show_int (fst kv) @ '']  ''
                                  @ get_status s (snd kv) @ ''    '' @ command (snd kv)
                                  @ [CHR 0x0A])) (jobs s)"
    using print_jobs_frame[of "jobs s" s] by simp_all
  have run: "is_running ?s1 j = is_running s j" for j
    using fr(3) by (rule is_running_procs)
  have dist: "distinct (map fst (jobs s))"
    using assms by (rule table_ok_distinct)
  have d1: "distinct ?done"
    using dist by (simp add: distinct_map_filter)
  have d2: "set ?done \<subseteq> fst ` set (jobs ?s1)"
    using fr(1) by auto
  have "del_jobs ?done ?s1 = (None, ?s1\<lparr>jobs := filter (\<lambda>kv. fst kv \<notin> set ?done) (jobs ?s1)\<rparr>)"
    using d1 d2 by (rule del_jobs_filter)
  moreover have "filter (\<lambda>kv. fst kv \<notin> set ?done) (jobs s) =
      filter (\<lambda>kv. is_running s (snd kv)) (jobs s)"
    using filter_by_keys[OF dist, of "\<lambda>kv. is_running s (snd kv)"] by simp
  ultimately have "show_jobs s =
      (None, ?s1\<lparr>jobs := filter (\<lambda>kv. is_running s (snd kv)) (jobs s)\<rparr>)"
    using False fr(1) by (simp add: show_jobs_def Let_def run)
  moreover have "sorted_wrt (<) (map fst (jobs s))"
    using assms by (simp add: table_ok_def)
  ultimately show ?thesis
    using fr by simp
qed

theorem show_jobs_lists_and_reaps_witness:
  "table_ok demo_jobs \<and>
   fst (show_jobs demo_jobs) = None \<and>
   trace (snd (show_jobs demo_jobs)) =
     trace demo_jobs @ [Stdout ''[1]  done (0)    sleep 5\<newline>'',
                        Stdout ''[2]  running    sleep 6 | cat\<newline>''] \<and>
   jobs (snd (show_jobs demo_jobs)) =
     [(2, \<lparr>job_id = 2, command = ''sleep 6 | cat'', process = 102, status = ''running'',
            start_time = 0\<rparr>)]"
proof -
  have a: "table_ok demo_jobs"
    by (simp add: table_ok_def demo_jobs_table)
  show ?thesis
    using a show_jobs_lists_and_reaps [OF a]
    by (auto simp: demo_jobs_table is_running_def get_status_def show_int_def show_nat.simps
        digit_char_def)
qed

section \<open>The job table in the states the shell reaches\<close>

text \<open>
  The job table of a new shell is empty, and every step of the main loop keeps its shape:
  the ids ascend in insertion order and lie below the counter. So the table has this
  shape in every state in which a built-in runs.
\<close>

lemma table_ok_same:
  "jobs s' = jobs s \<Longrightarrow> job_counter s' = job_counter s \<Longrightarrow> table_ok s' = table_ok s"
  by (simp add: table_ok_def)

lemma table_ok_new_shell: "table_ok (new_shell env0 dir0 pid0)"
  by (simp add: table_ok_def new_shell_def)

lemma table_ok_emit [simp]: "table_ok (emit e s) = table_ok s"
  by (simp add: table_ok_def)

lemma table_ok_print_out [simp]: "table_ok (print_out t s) = table_ok s"
  by (simp add: table_ok_def)

lemma table_ok_set_exited [simp]: "table_ok (set_exited pid c s) = table_ok s"
  by (simp add: table_ok_def set_exited_def split: option.splits pstatus.splits)

lemma register_counter [simp]: "job_counter (register w label pid s) = job_counter s + 1"
  by (simp add: register_def Let_def)

lemma del_job_counter [simp]: "job_counter (snd (del_job jid s)) = job_counter s"
  by (simp add: del_job_def)

lemma dict_set_fresh: "k \<notin> fst ` set d \<Longrightarrow> dict_set k v d = d @ [(k, v)]"
  by (induction d) auto

lemma table_ok_register: "table_ok s \<Longrightarrow> table_ok (register w label pid s)"
proof -
  assume ok: "table_ok s"
  then have lt: "\<forall>kv \<in> set (jobs s). fst kv < job_counter s"
    by (simp add: table_ok_def list_all_iff)
  then have "job_counter s \<notin> fst ` set (jobs s)" by auto
  then have js: "jobs (register w label pid s) =
      jobs s @ [(job_counter s, \<lparr>job_id = job_counter s, command = label, process = pid,
                  status = ''running'', start_time = clock w\<rparr>)]"
    by (simp add: register_def Let_def dict_set_fresh)
  show ?thesis
    unfolding table_ok_def js
    using ok lt by (auto simp: table_ok_def sorted_wrt_append list_all_iff)
qed

lemma table_ok_del_job: "table_ok s \<Longrightarrow> table_ok (snd (del_job jid s))"
  by (auto simp: table_ok_def del_job_def sorted_wrt_map sorted_wrt_filter list_all_iff)

lemma table_ok_del_jobs: "table_ok s \<Longrightarrow> table_ok (snd (del_jobs ks s))"
proof (induction ks arbitrary: s)
  case Nil
  then show ?case by simp
next
  case (Cons k ks)
  obtain r s1 where d: "del_job k s = (r, s1)" by fastforce
  have "table_ok s1" using table_ok_del_job[OF Cons.prems, of k] d by simp
  then show ?case using d Cons.IH[of s1] by (cases r) simp_all
qed

lemma table_ok_print_jobs [simp]: "table_ok (print_jobs js s) = table_ok s"
  by (induction js s rule: print_jobs.induct) simp_all

lemma table_ok_show_jobs: "table_ok s \<Longrightarrow> table_ok (snd (show_jobs s))"
  by (simp add: show_jobs_def Let_def table_ok_del_jobs)

lemma table_ok_del_jobD: "del_job jid s = (r, s1) \<Longrightarrow> table_ok s \<Longrightarrow> table_ok s1"
  using table_ok_del_job[of s jid] by simp

lemma table_ok_show_jobsD: "show_jobs s = (r, s1) \<Longrightarrow> table_ok s \<Longrightarrow> table_ok s1"
  using table_ok_show_jobs[of s] by simp

lemma table_ok_wait_procD: "wait_proc w pid s = (r, s1) \<Longrightarrow> table_ok s \<Longrightarrow> table_ok s1"
  by (auto simp: wait_proc_def split: option.splits)

lemma table_ok_resolve_fgD: "resolve_fg argv s = Inl s1 \<Longrightarrow> table_ok s \<Longrightarrow> table_ok s1"
  by (auto simp: resolve_fg_def split: list.splits sum.splits)

lemma table_ok_foreground_jobD:
  assumes "foreground_job w argv s = (r, s')" and ok: "table_ok s"
  shows "table_ok s'"
proof (cases "resolve_fg argv s")
  case (Inl s1)
  with assms(1) have "s' = s1" by (simp add: foreground_job_def)
  then show ?thesis using table_ok_resolve_fgD[OF Inl ok] by simp
next
  case (Inr jid)
  show ?thesis
  proof (cases "map_of (jobs s) jid")
    case None
    with Inr assms show ?thesis by (auto simp: foreground_job_def)
  next
    case (Some j)
    show ?thesis
    proof (cases "is_running s j")
      case False
      with Inr Some assms show ?thesis by (auto simp: foreground_job_def)
    next
      case True
      obtain r1 s1 where w: "wait_proc w (process j) s = (r1, s1)" by fastforce
      have ok1: "table_ok s1" using w ok by (rule table_ok_wait_procD)
      show ?thesis
      proof (cases r1)
        case (Some e)
        with Inr \<open>map_of (jobs s) jid = Some j\<close> True w assms(1) ok1 show ?thesis
          by (auto simp: foreground_job_def split: if_splits)
      next
        case None
        obtain r2 s2 where d: "del_job jid s1 = (r2, s2)" by fastforce
        have ok2: "table_ok s2" using d ok1 by (rule table_ok_del_jobD)
        from Inr \<open>map_of (jobs s) jid = Some j\<close> True w None d assms(1) ok2 show ?thesis
          by (cases r2) (auto simp: foreground_job_def split: if_splits)
      qed
    qed
  qed
qed

lemma table_ok_terminateD: "terminate w pid s = (r, s1) \<Longrightarrow> table_ok s \<Longrightarrow> table_ok s1"
  by (auto simp: terminate_def os_kill_def split: option.splits if_splits)

lemma table_ok_kill_exceptD: "kill_except e s = (r, s1) \<Longrightarrow> table_ok s \<Longrightarrow> table_ok s1"
  by (auto simp: kill_except_def split: if_splits)

lemma table_ok_kill_jobD:
  assumes "kill_job w argv s = (r, s')" and ok: "table_ok s"
  shows "table_ok s'"
proof (cases argv)
  case Nil
  with assms show ?thesis by (auto simp: kill_job_def)
next
  case (Cons a rest)
  show ?thesis
  proof (cases "py_int a")
    case (Inl e)
    with Cons assms show ?thesis
      by (auto simp: kill_job_def dest: table_ok_kill_exceptD)
  next
    case (Inr jid)
    show ?thesis
    proof (cases "map_of (jobs s) jid")
      case None
      with Cons Inr assms show ?thesis
        by (auto simp: kill_job_def os_kill_def split: option.splits dest: table_ok_kill_exceptD)
    next
      case (Some j)
      obtain r1 s1 where t: "terminate w (process j) s = (r1, s1)" by fastforce
      have ok1: "table_ok s1" using t ok by (rule table_ok_terminateD)
      show ?thesis
      proof (cases r1)
        case (Some e)
        with Cons Inr \<open>map_of (jobs s) jid = Some j\<close> t assms(1) ok1 show ?thesis
          by (auto simp: kill_job_def dest: table_ok_kill_exceptD)
      next
        case None
        let ?s2 = "print_out (''['' @ show_int jid @ ''] Terminated: '' @ command j) s1"
        obtain r3 s3 where d: "del_job jid ?s2 = (r3, s3)" by fastforce
        have ok3: "table_ok s3" using d ok1 by (auto dest: table_ok_del_jobD)
        from Cons Inr \<open>map_of (jobs s) jid = Some j\<close> t None d assms(1) ok3 show ?thesis
          by (cases r3) (auto simp: kill_job_def Let_def dest: table_ok_kill_exceptD)
      qed
    qed
  qed
qed

lemma table_ok_print_history [simp]: "table_ok (print_history i h s) = table_ok s"
  by (induction i h s rule: print_history.induct) simp_all

lemma table_ok_print_aliases [simp]: "table_ok (print_aliases al s) = table_ok s"
  by (induction al s rule: print_aliases.induct) simp_all

lemma table_ok_updates [simp]:
  "table_ok (s\<lparr>aliases := al\<rparr>) = table_ok s"
  "table_ok (s\<lparr>environment := en\<rparr>) = table_ok s"
  "table_ok (s\<lparr>environ := en\<rparr>) = table_ok s"
  "table_ok (s\<lparr>history := h\<rparr>) = table_ok s"
  "table_ok (s\<lparr>current_dir := d\<rparr>) = table_ok s"
  "table_ok (s\<lparr>cwd := d\<rparr>) = table_ok s"
  "table_ok (s\<lparr>procs := ps\<rparr>) = table_ok s"
  "table_ok (s\<lparr>next_pid := np\<rparr>) = table_ok s"
  by (simp_all add: table_ok_def)

lemma table_ok_handle_alias [simp]: "table_ok (handle_alias argv s) = table_ok s"
  by (cases argv) (simp_all add: handle_alias_def split_once_def split: option.splits)

lemma table_ok_handle_exportD:
  "handle_export w argv s = (r, s1) \<Longrightarrow> table_ok s \<Longrightarrow> table_ok s1"
proof (induction w argv s rule: handle_export.induct)
  case (1 w s)
  then show ?case by simp
next
  case (2 w arg rest s)
  show ?case
  proof (cases "CHR ''='' \<in> set arg")
    case True
    obtain name val where nv: "split_once CHR ''='' arg = (name, val)" by fastforce
    let ?s1 = "s\<lparr>environment := dict_set name val (environment s)\<rparr>"
    have ok1: "table_ok ?s1" using "2.prems"(2) by simp
    obtain r2 s2 where p: "putenv w name val ?s1 = (r2, s2)" by fastforce
    have ok2: "table_ok s2"
      using p ok1 by (auto simp: putenv_def split: option.splits)
    show ?thesis
    proof (cases r2)
      case (Some e)
      with True nv p "2.prems"(1) ok2 show ?thesis by simp
    next
      case None
      with True nv p "2.prems"(1) have "handle_export w rest s2 = (r, s1)" by simp
      then show ?thesis
        using "2.IH"(1)[OF True refl nv[symmetric] refl p[symmetric] None] ok2 by simp
    qed
  next
    case False
    show ?thesis
    proof (cases "map_of (environment s) arg")
      case None
      with False "2.prems" "2.IH"(2,3) show ?thesis by auto
    next
      case (Some v)
      with False "2.prems" "2.IH"(2,3) show ?thesis by auto
    qed
  qed
qed

lemma table_ok_builtin_cdD: "builtin_cd w argv s = (r, s1) \<Longrightarrow> table_ok s \<Longrightarrow> table_ok s1"
  by (auto simp: builtin_cd_def chdir_def Let_def split: option.splits if_splits)

lemma table_ok_execute_builtinD:
  assumes "execute_builtin w cmdv s = (r, s1)" and ok: "table_ok s"
  shows "table_ok s1"
proof (cases cmdv)
  case Nil
  with assms show ?thesis by (simp add: execute_builtin_def)
next
  case (Cons cmd argv)
  obtain r1 t1 where cd: "builtin_cd w argv s = (r1, t1)" by fastforce
  obtain r2 t2 where jb: "show_jobs s = (r2, t2)" by fastforce
  obtain r3 t3 where fg: "foreground_job w argv s = (r3, t3)" by fastforce
  obtain r4 t4 where kl: "kill_job w argv s = (r4, t4)" by fastforce
  obtain r5 t5 where ex: "handle_export w argv s = (r5, t5)" by fastforce
  have oks: "table_ok t1" "table_ok t2" "table_ok t3" "table_ok t4" "table_ok t5"
    using ok table_ok_builtin_cdD[OF cd] table_ok_show_jobsD[OF jb]
      table_ok_foreground_jobD[OF fg] table_ok_kill_jobD[OF kl] table_ok_handle_exportD[OF ex]
    by simp_all
  show ?thesis
    using assms Cons cd jb fg kl ex oks
    by (auto simp: execute_builtin_def background_job_def show_history_def
        split: if_splits option.splits)
qed

lemma table_ok_open_redirectD:
  "open_redirect w rf s = (r, s1) \<Longrightarrow> table_ok s \<Longrightarrow> table_ok s1"
  by (auto simp: open_redirect_def open_w_def split: option.splits if_splits)

lemma table_ok_PopenD: "Popen w call s = (r, s1) \<Longrightarrow> table_ok s \<Longrightarrow> table_ok s1"
  by (auto simp: Popen_def split: list.splits option.splits)

lemma table_ok_communicateD:
  "communicate w pid s = (r, s1) \<Longrightarrow> table_ok s \<Longrightarrow> table_ok s1"
  by (auto simp: communicate_def split: option.splits if_splits)

lemma table_ok_print_decodedD:
  "print_decoded w f data s = (r, s1) \<Longrightarrow> table_ok s \<Longrightarrow> table_ok s1"
  by (auto simp: print_decoded_def split: option.splits)

lemma table_ok_print_capturedD:
  assumes "print_captured w b data s = (r, s')" and ok: "table_ok s"
  shows "table_ok s'"
proof -
  obtain r1 s1 where o: "(case fst data of
              None \<Rightarrow> (None, s)
            | Some out \<Rightarrow>
                (if out \<noteq> [] \<and> b then print_decoded w Stdout out s else (None, s))) = (r1, s1)"
    by fastforce
  have ok1: "table_ok s1"
    using o ok by (auto split: option.splits if_splits dest: table_ok_print_decodedD)
  show ?thesis
    using assms(1) o ok1
    by (cases r1) (auto simp: print_captured_def split: option.splits if_splits
        dest: table_ok_print_decodedD)
qed

lemma table_ok_run_singleD:
  assumes "run_single w cmdv bg rf s = (r, s')" and ok: "table_ok s"
  shows "table_ok s'"
proof -
  obtain ro s1 where o: "open_redirect w rf s = (ro, s1)" by fastforce
  have ok1: "table_ok s1" using o ok by (rule table_ok_open_redirectD)
  show ?thesis
  proof (cases ro)
    case (Inl e)
    with assms(1) o ok1 show ?thesis by (simp add: run_single_def)
  next
    case (Inr stdout)
    let ?call = "\<lparr>args = cmdv, p_stdin = Inherit,
                   p_stdout = (case stdout of None \<Rightarrow> Pipe | Some f \<Rightarrow> f),
                   p_cwd = current_dir s1, p_env = environment s1\<rparr>"
    obtain rp s2 where p: "Popen w ?call s1 = (rp, s2)" by fastforce
    have ok2: "table_ok s2" using p ok1 by (rule table_ok_PopenD)
    show ?thesis
    proof (cases rp)
      case (Inl e)
      with assms(1) o Inr p ok2 show ?thesis by (simp add: run_single_def)
    next
      case pid: (Inr pid)
      obtain rc s3 where c: "communicate w pid s2 = (rc, s3)" by fastforce
      have ok3: "table_ok s3" using c ok2 by (rule table_ok_communicateD)
      have okr: "table_ok (register w (str_join '' '' cmdv) pid s2)"
        using ok2 by (rule table_ok_register)
      obtain rd s4 where d: "print_captured w (\<not> truthy rf) (projr rc) s3 = (rd, s4)"
        by fastforce
      have ok4: "table_ok s4" using d ok3 by (rule table_ok_print_capturedD)
      show ?thesis
        using assms(1) o Inr p pid c d ok3 ok4 okr
        by (auto simp: run_single_def split: if_splits sum.splits option.splits stream.splits)
    qed
  qed
qed

lemma table_ok_single_exceptD:
  "single_except cmdv e s = (r, s1) \<Longrightarrow> table_ok s \<Longrightarrow> table_ok s1"
  by (auto simp: single_except_def split: if_splits sum.splits)

lemma table_ok_chain_exceptD:
  "chain_except e s = (r, s1) \<Longrightarrow> table_ok s \<Longrightarrow> table_ok s1"
  by (auto simp: chain_except_def split: if_splits)

lemma table_ok_wait_allD: "wait_all w ps s = (r, s1) \<Longrightarrow> table_ok s \<Longrightarrow> table_ok s1"
proof (induction ps arbitrary: s)
  case Nil
  then show ?case by simp
next
  case (Cons p ps)
  obtain r1 t1 where w1: "wait_proc w p s = (r1, t1)" by fastforce
  have "table_ok t1" using w1 Cons.prems(2) by (rule table_ok_wait_procD)
  with Cons w1 show ?case by (cases r1) auto
qed

lemma table_ok_execute_pipeline_chainD:
  assumes "execute_pipeline_chain w commands bg rf s = (r, s')" and ok: "table_ok s"
  shows "table_ok s'"
proof -
  obtain rs s1 where sp: "spawn_stages w (int (length commands)) rf 0 commands [] s = (rs, s1)"
    by fastforce
  have "only_spawns s s1" using sp by (rule spawn_stages_only_spawns)
  then have ok1: "table_ok s1"
    using ok by (simp add: only_spawns_def table_ok_def)
  show ?thesis
  proof (cases rs)
    case (Inl e)
    with assms(1) sp ok1 show ?thesis
      by (auto simp: execute_pipeline_chain_def dest: table_ok_chain_exceptD)
  next
    case (Inr processes)
    obtain rw s2 where wa: "wait_all w processes s1 = (rw, s2)" by fastforce
    have ok2: "table_ok s2" using wa ok1 by (rule table_ok_wait_allD)
    obtain rc s3 where c: "communicate w (processes ! nat (int (length processes) + - 1)) s2 = (rc, s3)"
      by fastforce
    have ok3: "table_ok s3" using c ok2 by (rule table_ok_communicateD)
    have okr: "table_ok (register w label pid s1)" for label pid
      using ok1 by (rule table_ok_register)
    obtain rd s4 where d: "print_captured w True (projr rc) s3 = (rd, s4)"
      by fastforce
    have ok4: "table_ok s4" using d ok3 by (rule table_ok_print_capturedD)
    show ?thesis
      using assms(1) sp Inr wa c d ok1 ok2 ok3 ok4 okr
      by (auto simp: execute_pipeline_chain_def py_index_def
          split: if_splits sum.splits option.splits dest: table_ok_chain_exceptD)
  qed
qed

lemma table_ok_execute_pipelineD:
  assumes "execute_pipeline w commands bg rf s = (r, s')" and ok: "table_ok s"
  shows "table_ok s'"
proof (cases "length commands = 1")
  case False
  with assms show ?thesis
    by (auto simp: execute_pipeline_def dest: table_ok_execute_pipeline_chainD)
next
  case True
  then obtain c where c: "commands = [c]"
    by (cases commands) auto
  let ?cmdv = "expand_aliases (aliases s) c"
  obtain rb s1 where b: "execute_builtin w ?cmdv s = (rb, s1)" by fastforce
  have ok1: "table_ok s1" using b ok by (rule table_ok_execute_builtinD)
  obtain rr s2 where rs: "run_single w ?cmdv bg rf s1 = (rr, s2)" by fastforce
  have ok2: "table_ok s2" using rs ok1 by (rule table_ok_run_singleD)
  show ?thesis
    using assms(1) c b rs ok1 ok2
    by (auto simp: execute_pipeline_def py_index_def Let_def
        split: sum.splits bool.splits option.splits if_splits dest: table_ok_single_exceptD)
qed

lemma table_ok_run_lineD: "run_line w l s = (r, s1) \<Longrightarrow> table_ok s \<Longrightarrow> table_ok s1"
  by (auto simp: run_line_def Let_def split: if_splits sum.splits
      dest!: table_ok_execute_pipelineD)

lemma reap_scan_table: "reap_scan js s = (ks, s1) \<Longrightarrow> table_ok s1 = table_ok s"
proof (induction js arbitrary: s ks)
  case Nil
  then show ?case by simp
next
  case (Cons kv js)
  obtain jid j where kv: "kv = (jid, j)" by (cases kv)
  show ?case
    using Cons.prems Cons.IH unfolding kv
    by (auto split: if_splits prod.splits)
qed

lemma table_ok_reapD: "reap s = (r, s1) \<Longrightarrow> table_ok s \<Longrightarrow> table_ok s1"
proof -
  assume a: "reap s = (r, s1)" and ok: "table_ok s"
  obtain ks t where sc: "reap_scan (jobs s) s = (ks, t)" by fastforce
  have "table_ok t" using reap_scan_table[OF sc] ok by simp
  then have "table_ok (snd (del_jobs ks t))" by (rule table_ok_del_jobs)
  with a sc show ?thesis by (simp add: reap_def)
qed

lemma table_ok_run_loop:
  "table_ok s \<Longrightarrow> table_ok (snd (run_loop w inp s))"
  "table_ok s \<Longrightarrow> table_ok (snd (await_input w inp s))"
proof (induction w inp s and w inp s rule: run_loop_await_input.induct)
  case (1 w inp s)
  obtain r s1 where rp: "reap s = (r, s1)" by fastforce
  have "table_ok s1" using rp "1.prems" by (rule table_ok_reapD)
  with rp "1.IH" show ?case by (cases r) auto
next
  case (2 w s)
  then show ?case by simp
next
  case (3 w pid c rest s)
  then show ?case by simp
next
  case (4 w rest s)
  then show ?case by simp
next
  case (5 w l rest s)
  obtain r s1 where rl: "run_line w l s = (r, s1)" by fastforce
  have "table_ok s1" using rl "5.prems" by (rule table_ok_run_lineD)
  with rl "5.IH" show ?case by (cases r) auto
qed

lemma table_ok_run: "table_ok (snd (run w inp (new_shell env0 dir0 pid0)))"
  unfolding run_def by (rule table_ok_run_loop) (simp add: table_ok_new_shell)

section \<open>Job ids\<close>

lemma register_stores:
  "map_of (jobs (register w label pid s)) (job_counter s) =
     Some \<lparr>job_id = job_counter s, command = label, process = pid,
           status = ''running'', start_time = clock w\<rparr>"
proof -
  have "map_of (dict_set k v d) k = Some v" for k :: int and v :: job and d
    by (induction d) auto
  then show ?thesis
    by (simp add: register_def Let_def)
qed

lemma register_appends:
  assumes "table_ok s"
  shows "jobs (register w label pid s) =
      jobs s @ [(job_counter s, \<lparr>job_id = job_counter s, command = label, process = pid,
                  status = ''running'', start_time = clock w\<rparr>)]"
proof -
  have "\<forall>kv \<in> set (jobs s). fst kv < job_counter s"
    using assms by (simp add: table_ok_def list_all_iff)
  then have "job_counter s \<notin> fst ` set (jobs s)" by auto
  then show ?thesis
    by (simp add: register_def Let_def dict_set_fresh)
qed

lemma added_ids_register:
  assumes "table_ok s"
  shows "added_ids s (register w label pid s) = [(job_counter s, job_counter s)]"
proof -
  have lt: "\<forall>kv \<in> set (jobs s). fst kv < job_counter s"
    using assms by (simp add: table_ok_def list_all_iff)
  then have fresh: "job_counter s \<notin> fst ` set (jobs s)" by auto
  have old: "filter (\<lambda>kv. fst kv \<notin> fst ` set (jobs s)) (jobs s) = []"
    by (simp add: filter_empty_conv)
  show ?thesis
    unfolding added_ids_def register_appends[OF assms]
    using fresh old by simp
qed

lemma apply_ops_ids:
  "table_ok s \<Longrightarrow>
   fst (apply_ops w ops s) =
     map (\<lambda>k. (job_counter s + int k, job_counter s + int k))
       [0..<length (filter is_register ops)]"
proof (induction ops arbitrary: s)
  case Nil
  then show ?case by simp
next
  case (Cons op ops)
  show ?case
  proof (cases op)
    case (Register label pid)
    let ?n = "length (filter is_register ops)"
    have ok: "table_ok (register w label pid s)"
      using Cons.prems by (rule table_ok_register)
    have "map (\<lambda>k. (job_counter s + int k, job_counter s + int k)) [0..<Suc ?n] =
          (job_counter s, job_counter s) #
          map (\<lambda>k. (job_counter s + 1 + int k, job_counter s + 1 + int k)) [0..<?n]"
      by (simp add: upt_conv_Cons map_Suc_upt[symmetric] del: upt_Suc)
    with Register Cons.IH[OF ok] added_ids_register[OF Cons.prems, of w label pid]
    show ?thesis
      by (simp add: split_beta)
  next
    case (Remove jid)
    have ok: "table_ok (snd (del_job jid s))"
      using Cons.prems by (rule table_ok_del_job)
    with Remove Cons.IH[OF ok] show ?thesis by simp
  qed
qed

text \<open>
  Claim C3. For every sequence of register and remove operations on a shell that has
  just started, the registrations add to the job table, one after the other, the keys
  1, 2, 3, ..., each with a record whose \<open>job_id\<close> is its key: the ids start at 1,
  increase strictly, and none is assigned twice, whatever was removed in between.
\<close>

theorem job_ids_increase_from_one:
  "fst (apply_ops w ops (new_shell env0 dir0 pid0)) =
     map (\<lambda>k. (int k, int k)) [1..<Suc (length (filter is_register ops))] \<and>
   sorted_wrt (<) (map fst (fst (apply_ops w ops (new_shell env0 dir0 pid0)))) \<and>
   distinct (map fst (fst (apply_ops w ops (new_shell env0 dir0 pid0))))"
proof -
  let ?n = "length (filter is_register ops)"
  have "fst (apply_ops w ops (new_shell env0 dir0 pid0)) =
      map (\<lambda>k. (1 + int k, 1 + int k)) [0..<?n]"
    using apply_ops_ids[OF table_ok_new_shell, of w ops env0 dir0 pid0]
    by (simp add: new_shell_def)
  also have "\<dots> = map (\<lambda>k. (int k, int k)) [1..<Suc ?n]"
    by (simp add: map_Suc_upt[symmetric] del: upt_Suc)
  finally have eq: "fst (apply_ops w ops (new_shell env0 dir0 pid0)) =
      map (\<lambda>k. (int k, int k)) [1..<Suc ?n]" .
  have keys: "map fst (map (\<lambda>k. (int k, int k)) [1..<Suc ?n]) = map int [1..<Suc ?n]"
    by (simp add: comp_def del: upt_Suc)
  have "sorted_wrt (<) (map int [1..<Suc ?n])"
    by (simp add: sorted_wrt_map del: upt_Suc)
  moreover have "distinct (map int [1..<Suc ?n])"
    by (simp add: distinct_map del: upt_Suc)
  ultimately show ?thesis
    unfolding eq keys by simp
qed

theorem job_ids_increase_from_one_witness:
  "fst (apply_ops demo_os [Register ''a'' 100, Register ''b'' 101, Remove 2, Remove 1,
                           Register ''c'' 102] demo_shell) = [(1, 1), (2, 2), (3, 3)]"
  using job_ids_increase_from_one
    [of demo_os "[Register ''a'' 100, Register ''b'' 101, Remove 2, Remove 1, Register ''c'' 102]"
        "[]" "''/''" 100]
  by (simp add: demo_shell_def upt_conv_Cons)

end
